theory Spec2Isabelle
  imports Main "HOL-Library.Word"
begin

unbundle bit_operations_syntax

section \<open>The worker of the emulator: data model\<close>

text \<open>
  The source is \<^verbatim>\<open>src/runtime/worker.js\<close>. The function \<^verbatim>\<open>run(core)\<close> closes over the
  engine (\<^verbatim>\<open>core\<close>, the exports of a WebAssembly instance), two views of the engine's
  memory buffer (\<^verbatim>\<open>memoryData\<close>, \<^verbatim>\<open>registerPairs\<close>) and three variables
  (\<^verbatim>\<open>stopped\<close>, \<^verbatim>\<open>tape\<close>, \<^verbatim>\<open>trdosDisk\<close>).
\<close>

type_synonym byte = "8 word"
type_synonym u16 = "16 word"
type_synonym bytes = "byte list"

text \<open>
  Everything the worker does to the engine, in the order it does it: the entry points of
  \<^verbatim>\<open>core\<close> it calls, and its own stores through the two views of the engine's buffer
  (\<^verbatim>\<open>memoryData.set(data, offset)\<close> and \<^verbatim>\<open>registerPairs[i] = v\<close>).
\<close>

datatype engine_op =
    SetMachineType nat
  | Poke u16 byte
  | SetPC nat
  | SetIFF1 nat
  | SetIFF2 nat
  | SetIM nat
  | SetHalted bool
  | WritePort nat nat
  | SetTStates nat
  | SetAudioSamplesPerFrame nat
  | RunFrame
  | ResumeFrame
  | KeyDown nat nat
  | KeyUp nat nat
  | Reset
  | MemorySet nat bytes
  | RegisterPairSet nat u16

text \<open>
  The engine as the worker sees it. \<open>memoryData\<close> is the \<^verbatim>\<open>Uint8Array\<close> over
  \<^verbatim>\<open>core.memory.buffer\<close>; \<open>registerPairs\<close> is the \<^verbatim>\<open>Uint16Array\<close> of 12 elements
  at \<^verbatim>\<open>core.REGISTERS\<close> (slots AF, BC, DE, HL, AF', BC', DE', HL', IX, IY, SP, IR);
  \<open>trace\<close> lists the operations performed so far, oldest first. The engine's own state
  (program counter, paged machine memory, ports) is behind its entry points and is not
  read by the worker: a call is recorded in the trace and leaves the two views as they
  are, except \<^verbatim>\<open>runFrame\<close>, \<^verbatim>\<open>resumeFrame\<close> and \<^verbatim>\<open>reset\<close>, whose effect on the
  views is a parameter (see \<open>collaborators\<close>). The register view is kept apart from
  \<open>memoryData\<close>: a page copy or a poke does not reach the register slots.
\<close>

record core =
  memoryData :: bytes
  registerPairs :: "u16 list"
  trace :: "engine_op list"

definition call :: "engine_op \<Rightarrow> core \<Rightarrow> core" where
  "call op c = c\<lparr>trace := trace c @ [op]\<rparr>"

text \<open>\<^verbatim>\<open>registerPairs[i] = v\<close>: a store outside the array is ignored by a typed array.\<close>

definition setRegisterPair :: "nat \<Rightarrow> u16 \<Rightarrow> core \<Rightarrow> core" where
  "setRegisterPair i v c =
     c\<lparr>registerPairs := (registerPairs c)[i := v], trace := trace c @ [RegisterPairSet i v]\<rparr>"

datatype error =
    UnrecognisedOpcode
  | UnexpectedResult int
  | RangeError

text \<open>
  What the worker imports and does not define: the constants of \<^verbatim>\<open>constants.js\<close> and of
  the engine's exports, the engine's entry points that return a status or rewrite the
  views, and the tape classes of \<^verbatim>\<open>tape.js\<close> (\<open>'t\<close> is the type of a tape object).
  \<open>getNextLoadableBlock\<close> returns the block, or \<open>None\<close> for a falsy result, and the tape
  object after the call.
\<close>

record 't collaborators =
  FRAME_BUFFER_SIZE :: nat
  FRAME_BUFFER :: nat
  MACHINE_MEMORY :: nat
  AUDIO_BUFFER_LEFT :: nat
  AUDIO_BUFFER_RIGHT :: nat
  runFrame :: "core \<Rightarrow> int \<times> core"
  resumeFrame :: "core \<Rightarrow> int \<times> core"
  reset :: "core \<Rightarrow> core"
  newTAPFile :: "bytes \<Rightarrow> 't"
  newTZXFile :: "bytes \<Rightarrow> 't"
  getNextLoadableBlock :: "'t \<Rightarrow> bytes option \<times> 't"

text \<open>
  What the worker posts: \<^verbatim>\<open>ready\<close> once, and \<^verbatim>\<open>frameCompleted\<close> with the video
  buffer and, when they were copied, the two audio buffers.
\<close>

datatype response =
    Ready
  | FrameCompleted bytes "(bytes \<times> bytes) option"

record 't worker =
  core :: core
  stopped :: bool
  tape :: "'t option"
  trdosDisk :: bytes

text \<open>
  The state that \<^verbatim>\<open>run(core)\<close> sets up (lines 9 to 12: the disk buffer of 0xa0000
  zero bytes, \<^verbatim>\<open>stopped\<close> false, no tape) and the message it posts last (lines 190 to
  192).
\<close>

definition run :: "core \<Rightarrow> 't worker \<times> response list" where
  "run c = (\<lparr>core = c, stopped = False, tape = None, trdosDisk = replicate 0xa0000 0\<rparr>, [Ready])"

section \<open>The fast tape loader\<close>

text \<open>
  The \<^verbatim>\<open>while\<close> loop of \<^verbatim>\<open>trapTapeLoad\<close> (lines 63 to 74), with its variables as
  arguments. The result is \<^verbatim>\<open>success\<close> (false after the \<^verbatim>\<open>break\<close>), \<^verbatim>\<open>offset\<close>,
  \<^verbatim>\<open>checksum\<close> and the engine. \<^verbatim>\<open>(addr + 1) & 0xffff\<close> is the addition of \<open>u16\<close>.
\<close>

function loadLoop ::
  "bytes \<Rightarrow> nat \<Rightarrow> nat \<Rightarrow> nat \<Rightarrow> u16 \<Rightarrow> byte \<Rightarrow> core \<Rightarrow> bool \<times> nat \<times> byte \<times> core" where
  "loadLoop block requestedLength offset loadedBytes addr checksum c =
     (if loadedBytes < requestedLength then
        (if offset \<ge> length block then (False, offset, checksum, c)
         else loadLoop block requestedLength (offset + 1) (loadedBytes + 1) (addr + 1)
                (checksum XOR (block ! offset)) (call (Poke addr (block ! offset)) c))
      else (True, offset, checksum, c))"
  by pat_completeness auto
termination
  by (relation "measure (\<lambda>(block, requestedLength, offset, loadedBytes, addr, checksum, c).
        requestedLength - loadedBytes)") auto

declare loadLoop.simps [simp del]

text \<open>
  The body of \<^verbatim>\<open>trapTapeLoad\<close> once a block is at hand (lines 47 to 95).
  \<^verbatim>\<open>block[0]\<close> of an empty block is \<^verbatim>\<open>undefined\<close>, which \<^verbatim>\<open>!=\<close> tells apart from
  every number: an empty block is a type mismatch.
\<close>

definition loadBlock :: "bytes \<Rightarrow> core \<Rightarrow> core" where
  "loadBlock block c =
     (let af' = registerPairs c ! 4;
          expectedBlockType = drop_bit 8 af';
          shouldLoad = af' AND 1;
          addr = registerPairs c ! 8;
          requestedLength = registerPairs c ! 2;
          (success, c1) =
            (if block = [] \<or> unat expectedBlockType \<noteq> unat (block ! 0) then (False, c)
             else if shouldLoad \<noteq> 0 then
               (case loadLoop block (unat requestedLength) 1 0 addr (block ! 0) c of
                  (success, offset, checksum, c') \<Rightarrow>
                    (if success \<and> offset < length block then (checksum = block ! offset, c')
                     else (False, c')))
             else (True, c));
          c2 = (if success then setRegisterPair 0 (registerPairs c1 ! 0 OR 1) c1
                else setRegisterPair 0 (registerPairs c1 ! 0 AND 0xfffe) c1)
      in call (SetPC 0x05e2) c2)"

text \<open>\<^verbatim>\<open>trapTapeLoad\<close> (lines 42 to 96): the two early returns, then the block.\<close>

definition trapTapeLoad :: "'t collaborators \<Rightarrow> 't worker \<Rightarrow> 't worker" where
  "trapTapeLoad E w =
     (case tape w of
        None \<Rightarrow> w
      | Some t \<Rightarrow>
          (case getNextLoadableBlock E t of
             (None, t') \<Rightarrow> w\<lparr>tape := Some t'\<rparr>
           | (Some block, t') \<Rightarrow> w\<lparr>core := loadBlock block (core w), tape := Some t'\<rparr>))"

section \<open>Memory pages and snapshots\<close>

text \<open>
  \<^verbatim>\<open>target.set(source, offset)\<close> of a typed array: a \<^verbatim>\<open>RangeError\<close> when the source
  does not fit at the offset, the bytes of the source stored from the offset on otherwise.
\<close>

definition typedArraySet :: "bytes \<Rightarrow> nat \<Rightarrow> bytes \<Rightarrow> error + bytes" where
  "typedArraySet source offset target =
     (if offset + length source > length target then Inl RangeError
      else Inr (take offset target @ source @ drop (offset + length source) target))"

text \<open>\<^verbatim>\<open>loadMemoryPage\<close> (lines 14 to 16).\<close>

definition loadMemoryPage :: "'t collaborators \<Rightarrow> nat \<Rightarrow> bytes \<Rightarrow> core \<Rightarrow> error + core" where
  "loadMemoryPage E page data c =
     (case typedArraySet data (MACHINE_MEMORY E + page * 0x4000) (memoryData c) of
        Inl e \<Rightarrow> Inl e
      | Inr m \<Rightarrow> Inr (c\<lparr>memoryData := m,
                       trace := trace c @ [MemorySet (MACHINE_MEMORY E + page * 0x4000) data]\<rparr>))"

text \<open>
  A snapshot. \<open>memoryPages\<close> lists the pages in the order in which \<^verbatim>\<open>for (let page in ...)\<close>
  enumerates them; \<open>registers\<close> is the object indexed by the register's name, which also
  holds \<^verbatim>\<open>PC\<close>, \<^verbatim>\<open>iff1\<close>, \<^verbatim>\<open>iff2\<close> and \<^verbatim>\<open>im\<close>; \<open>halted\<close> is the truth value
  \<^verbatim>\<open>!!snapshot.halted\<close>.
\<close>

record ula_state =
  borderColour :: nat
  pagingFlags :: nat

record snapshot =
  model :: nat
  memoryPages :: "(nat \<times> bytes) list"
  registers :: "string \<Rightarrow> nat"
  halted :: bool
  ulaState :: ula_state
  tstates :: nat

text \<open>The loop over the pages (lines 20 to 22); an exception leaves the loader at once.\<close>

fun loadPages :: "'t collaborators \<Rightarrow> (nat \<times> bytes) list \<Rightarrow> core \<Rightarrow> (error \<times> core) + core" where
  "loadPages E [] c = Inr c"
| "loadPages E ((page, data) # ps) c =
     (case loadMemoryPage E page data c of
        Inl e \<Rightarrow> Inl (e, c)
      | Inr c' \<Rightarrow> loadPages E ps c')"

definition registerNames :: "string list" where
  "registerNames =
     [''AF'', ''BC'', ''DE'', ''HL'', ''AF_'', ''BC_'', ''DE_'', ''HL_'', ''IX'', ''IY'', ''SP'', ''IR'']"

text \<open>
  \<^verbatim>\<open>loadSnapshot\<close> (lines 18 to 40). A store into the \<^verbatim>\<open>Uint16Array\<close> keeps the low
  16 bits of the number. \<open>Inl\<close> carries the exception and the engine as it was left.
\<close>

definition loadSnapshot :: "'t collaborators \<Rightarrow> snapshot \<Rightarrow> core \<Rightarrow> (error \<times> core) + core" where
  "loadSnapshot E s c =
     (case loadPages E (memoryPages s) (call (SetMachineType (model s)) c) of
        Inl ec \<Rightarrow> Inl ec
      | Inr c1 \<Rightarrow>
          (let c2 = fold (\<lambda>(i, r). setRegisterPair i (of_nat (registers s r)))
                      (enumerate 0 registerNames) c1;
               c3 = call (SetPC (registers s ''PC'')) c2;
               c4 = call (SetIFF1 (registers s ''iff1'')) c3;
               c5 = call (SetIFF2 (registers s ''iff2'')) c4;
               c6 = call (SetIM (registers s ''im'')) c5;
               c7 = call (SetHalted (halted s)) c6;
               c8 = call (WritePort 0x00fe (borderColour (ulaState s))) c7;
               c9 = (if model s \<noteq> 48 then call (WritePort 0x7ffd (pagingFlags (ulaState s))) c8
                     else c8)
           in Inr (call (SetTStates (tstates s)) c9)))"

section \<open>The message handler\<close>

text \<open>
  A frame request: the video buffer and, when the message has the key
  \<^verbatim>\<open>audioBufferLeft\<close>, the two audio buffers. Buffers are \<^verbatim>\<open>ArrayBuffer\<close>s, here their
  bytes; a \<^verbatim>\<open>Float32Array\<close> over a buffer is four bytes to the sample.
\<close>

record request =
  frameBuffer :: bytes
  audioBuffers :: "(bytes \<times> bytes) option"

datatype message =
    Msg_runFrame request
  | Msg_keyDown nat nat
  | Msg_keyUp nat nat
  | Msg_setMachineType nat
  | Msg_reset
  | Msg_loadMemory nat bytes
  | Msg_loadSnapshot snapshot
  | Msg_openTAPFile bytes
  | Msg_openTZXFile bytes
  | Msg_openTRDFile bytes
  | Msg_other

text \<open>
  \<^verbatim>\<open>memoryData.subarray(core.FRAME_BUFFER, FRAME_BUFFER_SIZE)\<close> (line 7): the arguments of
  \<^verbatim>\<open>subarray\<close> are a begin index and an end index, each clamped to the length of the
  array; the view is empty when the end is not after the begin.
\<close>

definition subarray :: "bytes \<Rightarrow> nat \<Rightarrow> nat \<Rightarrow> bytes" where
  "subarray a begin_index end_index =
     take (min end_index (length a) - min begin_index (length a))
       (drop (min begin_index (length a)) a)"

definition workerFrameData :: "'t collaborators \<Rightarrow> core \<Rightarrow> bytes" where
  "workerFrameData E c = subarray (memoryData c) (FRAME_BUFFER E) (FRAME_BUFFER_SIZE E)"

text \<open>
  \<^verbatim>\<open>new Float32Array(buffer, byteOffset, length)\<close>: a \<^verbatim>\<open>RangeError\<close> when the offset is
  not a multiple of 4 or the samples do not fit in the buffer.
\<close>

definition float32View :: "bytes \<Rightarrow> nat \<Rightarrow> nat \<Rightarrow> error + bytes" where
  "float32View buffer byteOffset n =
     (if byteOffset mod 4 \<noteq> 0 \<or> byteOffset + 4 * n > length buffer then Inl RangeError
      else Inr (take (4 * n) (drop byteOffset buffer)))"

text \<open>
  The dispatch loop of a frame (lines 118 to 132), entered with the status of the last
  engine call. It returns when the engine reports 0 or on a \<^verbatim>\<open>throw\<close>; an engine that
  reports 2 for ever keeps it running (the value \<open>None\<close>).
\<close>

partial_function (option) frameLoop ::
  "'t collaborators \<Rightarrow> int \<Rightarrow> 't worker \<Rightarrow> ((error \<times> 't worker) + 't worker) option" where
  "frameLoop E status w =
     (if status \<noteq> 0 then
        (if status = 1 then Some (Inl (UnrecognisedOpcode, w\<lparr>stopped := True\<rparr>))
         else if status = 2 then
           frameLoop E
             (fst (resumeFrame E (call ResumeFrame (core (trapTapeLoad E w)))))
             ((trapTapeLoad E w)\<lparr>core :=
                snd (resumeFrame E (call ResumeFrame (core (trapTapeLoad E w))))\<rparr>)
         else Some (Inl (UnexpectedResult status, w\<lparr>stopped := True\<rparr>)))
      else Some (Inr w))"

text \<open>
  After the loop (lines 134 to 153): the copy of the frame, then the copy of the audio
  when \<^verbatim>\<open>audioLength\<close> is not 0, then the response. Every exception here is a
  \<^verbatim>\<open>RangeError\<close> of a typed array, raised before \<^verbatim>\<open>postMessage\<close>.
\<close>

definition completeFrame :: "'t collaborators \<Rightarrow> request \<Rightarrow> core \<Rightarrow> error + response" where
  "completeFrame E r c =
     (case typedArraySet (workerFrameData E c) 0 (frameBuffer r) of
        Inl e \<Rightarrow> Inl e
      | Inr frameData \<Rightarrow>
          (case audioBuffers r of
             None \<Rightarrow> Inr (FrameCompleted frameData None)
           | Some (audioBufferLeft, audioBufferRight) \<Rightarrow>
               (if length audioBufferLeft = 0 then Inr (FrameCompleted frameData None)
                else if length audioBufferLeft mod 4 \<noteq> 0 \<or> length audioBufferRight mod 4 \<noteq> 0
                then Inl RangeError
                else
                  (case float32View (memoryData c) (AUDIO_BUFFER_LEFT E)
                          (length audioBufferLeft div 4) of
                     Inl e \<Rightarrow> Inl e
                   | Inr leftSource \<Rightarrow>
                       (case float32View (memoryData c) (AUDIO_BUFFER_RIGHT E)
                               (length audioBufferLeft div 4) of
                          Inl e \<Rightarrow> Inl e
                        | Inr rightSource \<Rightarrow>
                            (case typedArraySet leftSource 0 audioBufferLeft of
                               Inl e \<Rightarrow> Inl e
                             | Inr leftData \<Rightarrow>
                                 (case typedArraySet rightSource 0 audioBufferRight of
                                    Inl e \<Rightarrow> Inl e
                                  | Inr rightData \<Rightarrow>
                                      Inr (FrameCompleted frameData
                                             (Some (leftData, rightData))))))))))"

text \<open>
  The case \<^verbatim>\<open>'runFrame'\<close> (lines 100 to 155). The result is the worker after the
  message and either the exception that ended the handler or the responses it posted.
\<close>

definition handleRunFrame ::
  "'t collaborators \<Rightarrow> request \<Rightarrow> 't worker \<Rightarrow> ('t worker \<times> (error + response list)) option" where
  "handleRunFrame E r w =
     (if stopped w then Some (w, Inr [])
      else
        (let audioLength = (case audioBuffers r of
                              None \<Rightarrow> 0
                            | Some (audioBufferLeft, audioBufferRight) \<Rightarrow>
                                length audioBufferLeft div 4);
             c1 = call (SetAudioSamplesPerFrame audioLength) (core w);
             started = runFrame E (call RunFrame c1)
         in (case frameLoop E (fst started) (w\<lparr>core := snd started\<rparr>) of
               None \<Rightarrow> None
             | Some (Inl (e, w')) \<Rightarrow> Some (w', Inl e)
             | Some (Inr w') \<Rightarrow>
                 (case completeFrame E r (core w') of
                    Inl e \<Rightarrow> Some (w', Inl e)
                  | Inr resp \<Rightarrow> Some (w', Inr [resp])))))"

text \<open>\<^verbatim>\<open>onmessage\<close> (lines 98 to 188).\<close>

definition onmessage ::
  "'t collaborators \<Rightarrow> message \<Rightarrow> 't worker \<Rightarrow> ('t worker \<times> (error + response list)) option" where
  "onmessage E m w =
     (case m of
        Msg_runFrame r \<Rightarrow> handleRunFrame E r w
      | Msg_keyDown row kmask \<Rightarrow> Some (w\<lparr>core := call (KeyDown row kmask) (core w)\<rparr>, Inr [])
      | Msg_keyUp row kmask \<Rightarrow> Some (w\<lparr>core := call (KeyUp row kmask) (core w)\<rparr>, Inr [])
      | Msg_setMachineType t \<Rightarrow> Some (w\<lparr>core := call (SetMachineType t) (core w)\<rparr>, Inr [])
      | Msg_reset \<Rightarrow> Some (w\<lparr>core := reset E (call Reset (core w))\<rparr>, Inr [])
      | Msg_loadMemory page data \<Rightarrow>
          (case loadMemoryPage E page data (core w) of
             Inl e \<Rightarrow> Some (w, Inl e)
           | Inr c \<Rightarrow> Some (w\<lparr>core := c\<rparr>, Inr []))
      | Msg_loadSnapshot s \<Rightarrow>
          (case loadSnapshot E s (core w) of
             Inl (e, c) \<Rightarrow> Some (w\<lparr>core := c\<rparr>, Inl e)
           | Inr c \<Rightarrow> Some (w\<lparr>core := c\<rparr>, Inr []))
      | Msg_openTAPFile data \<Rightarrow> Some (w\<lparr>tape := Some (newTAPFile E data)\<rparr>, Inr [])
      | Msg_openTZXFile data \<Rightarrow> Some (w\<lparr>tape := Some (newTZXFile E data)\<rparr>, Inr [])
      | Msg_openTRDFile data \<Rightarrow>
          (case typedArraySet (take (min 0xa0000 (length data)) data) 0 (trdosDisk w) of
             Inl e \<Rightarrow> Some (w, Inl e)
           | Inr disk \<Rightarrow> Some (w\<lparr>trdosDisk := disk\<rparr>, Inr []))
      | Msg_other \<Rightarrow> Some (w, Inr []))"

text \<open>
  The worker handles one message at a time, in the order of arrival; an exception ends
  the handler of its message only. \<open>process\<close> returns the worker after the messages and
  the outcome of each.
\<close>

fun process ::
  "'t collaborators \<Rightarrow> message list \<Rightarrow> 't worker
     \<Rightarrow> ('t worker \<times> (error + response list) list) option" where
  "process E [] w = Some (w, [])"
| "process E (m # ms) w =
     (case onmessage E m w of
        None \<Rightarrow> None
      | Some (w', out) \<Rightarrow>
          (case process E ms w' of
             None \<Rightarrow> None
           | Some (w'', outs) \<Rightarrow> Some (w'', out # outs)))"

section \<open>The iterations of the dispatch loop\<close>

text \<open>
  The start of a frame request on a worker that is not stopped (lines 102 to 117): the
  call of \<^verbatim>\<open>setAudioSamplesPerFrame\<close>, then \<^verbatim>\<open>core.runFrame()\<close>; the result is the
  first status and the worker the loop starts from. \<open>handleRunFrame\<close> is the loop run
  from there (lemma \<open>handleRunFrame_from_start\<close>).
\<close>

definition startFrame :: "'t collaborators \<Rightarrow> request \<Rightarrow> 't worker \<Rightarrow> int \<times> 't worker" where
  "startFrame E r w =
     (let audioLength = (case audioBuffers r of
                           None \<Rightarrow> 0
                         | Some (audioBufferLeft, audioBufferRight) \<Rightarrow>
                             length audioBufferLeft div 4);
          c1 = call (SetAudioSamplesPerFrame audioLength) (core w);
          started = runFrame E (call RunFrame c1)
      in (fst started, w\<lparr>core := snd started\<rparr>))"

text \<open>
  One pass of the loop body on the status 2 (lines 123 to 125 and 131): the tape loader,
  then \<^verbatim>\<open>core.resumeFrame()\<close>; the result is the next status and the worker.
  \<open>afterTraps E n\<close> is \<open>n\<close> such passes in a row.
\<close>

definition trapIteration :: "'t collaborators \<Rightarrow> 't worker \<Rightarrow> int \<times> 't worker" where
  "trapIteration E w =
     (fst (resumeFrame E (call ResumeFrame (core (trapTapeLoad E w)))),
      (trapTapeLoad E w)\<lparr>core := snd (resumeFrame E (call ResumeFrame (core (trapTapeLoad E w))))\<rparr>)"

fun afterTraps :: "'t collaborators \<Rightarrow> nat \<Rightarrow> int \<times> 't worker \<Rightarrow> int \<times> 't worker" where
  "afterTraps E 0 sw = sw"
| "afterTraps E (Suc n) sw = afterTraps E n (trapIteration E (snd sw))"

section \<open>The pokes of a trace as a memory\<close>

text \<open>
  Modelled from the spec: \<^verbatim>\<open>core.poke(addr, val)\<close> is an entry point of the engine, whose
  code is not in \<^verbatim>\<open>worker.js\<close>; by the spec the engine has a memory addressed by the
  emulated CPU, and a poke stores one byte of it at a 16-bit address. \<open>pokedMemory\<close>
  replays the pokes of a trace, in their order, on such a memory.
\<close>

fun pokedMemory :: "engine_op list \<Rightarrow> (u16 \<Rightarrow> byte) \<Rightarrow> (u16 \<Rightarrow> byte)" where
  "pokedMemory [] m = m"
| "pokedMemory (Poke a b # ops) m = pokedMemory ops (m(a := b))"
| "pokedMemory (_ # ops) m = pokedMemory ops m"

section \<open>Concrete collaborators and states for the examples\<close>

text \<open>
  A tape whose state is the list of the blocks it has not handed out yet; it answers
  \<open>None\<close> once the list is empty.
\<close>

definition listTape :: "bytes list \<Rightarrow> bytes option \<times> bytes list" where
  "listTape t = (case t of [] \<Rightarrow> (None, []) | b # bs \<Rightarrow> (Some b, bs))"

text \<open>
  An engine with the frame buffer at \<open>fb\<close> and a frame buffer size of \<open>fbs\<close>, whose
  \<^verbatim>\<open>runFrame\<close> reports \<open>st\<close>, whose \<^verbatim>\<open>resumeFrame\<close> reports 0, and which leaves the
  views as they are.
\<close>

definition exampleEngine :: "nat \<Rightarrow> nat \<Rightarrow> int \<Rightarrow> (bytes list) collaborators" where
  "exampleEngine fb fbs st =
     \<lparr>FRAME_BUFFER_SIZE = fbs, FRAME_BUFFER = fb, MACHINE_MEMORY = 4,
      AUDIO_BUFFER_LEFT = 0, AUDIO_BUFFER_RIGHT = 4,
      runFrame = (\<lambda>c. (st, c)), resumeFrame = (\<lambda>c. (0, c)), reset = (\<lambda>c. c),
      newTAPFile = (\<lambda>d. [d]), newTZXFile = (\<lambda>d. [d]),
      getNextLoadableBlock = listTape\<rparr>"

text \<open>
  A worker over a memory image of eight bytes, with the given register pairs and tape,
  an empty trace and \<^verbatim>\<open>stopped\<close> false.
\<close>

definition exampleWorker :: "u16 list \<Rightarrow> bytes list option \<Rightarrow> (bytes list) worker" where
  "exampleWorker regs t =
     \<lparr>core = \<lparr>memoryData = [0, 1, 2, 3, 4, 5, 6, 7], registerPairs = regs, trace = []\<rparr>,
      stopped = False, tape = t, trdosDisk = [0, 0, 0, 0]\<rparr>"

text \<open>
  An engine whose \<^verbatim>\<open>runFrame\<close> reports the tape trap and whose \<^verbatim>\<open>resumeFrame\<close>
  reports \<open>st\<close>.
\<close>

definition trapThenStatus :: "int \<Rightarrow> (bytes list) collaborators" where
  "trapThenStatus st = (exampleEngine 0 4 2)\<lparr>resumeFrame := (\<lambda>c. (st, c))\<rparr>"

text \<open>An engine state over a memory image of \<open>n\<close> zero bytes, with twelve zero register pairs.\<close>

definition exampleCore :: "nat \<Rightarrow> core" where
  "exampleCore n =
     \<lparr>memoryData = replicate n 0, registerPairs = [0, 0, 0, 0, 0, 0, 0, 0, 0, 0, 0, 0],
      trace = []\<rparr>"

text \<open>
  A snapshot of the given model with one page of two bytes at the given page index and
  a different value for each register.
\<close>

definition exampleSnapshot :: "nat \<Rightarrow> nat \<Rightarrow> snapshot" where
  "exampleSnapshot m page =
     \<lparr>model = m, memoryPages = [(page, [0xAA, 0xBB])],
      registers = (\<lambda>r. case map_of
         [(''AF'', 0x0101), (''BC'', 0x0202), (''DE'', 0x0303), (''HL'', 0x0404),
          (''AF_'', 0x0505), (''BC_'', 0x0606), (''DE_'', 0x0707), (''HL_'', 0x0808),
          (''IX'', 0x0909), (''IY'', 0x0A0A), (''SP'', 0x0B0B), (''IR'', 0x0C0C),
          (''PC'', 0x8000), (''iff1'', 1), (''iff2'', 0), (''im'', 2)] r of
           Some v \<Rightarrow> v | None \<Rightarrow> 0),
      halted = True, ulaState = \<lparr>borderColour = 7, pagingFlags = 16\<rparr>, tstates = 100\<rparr>"

section \<open>The copy loop\<close>

text \<open>
  The loop stops after \<open>min (n - ld) (length block - off)\<close> bytes: it has poked them at
  consecutive addresses, folded them into the checksum, and it reports whether the
  requested count was reached.
\<close>

lemma loadLoop_eq:
  "loadLoop block n off ld addr ck c =
     (n - ld \<le> length block - off,
      off + min (n - ld) (length block - off),
      foldl (XOR) ck (take (min (n - ld) (length block - off)) (drop off block)),
      c\<lparr>trace := trace c @
          map (\<lambda>i. Poke (addr + of_nat i) (block ! (off + i)))
            [0..<min (n - ld) (length block - off)]\<rparr>)"
proof (induction block n off ld addr ck c rule: loadLoop.induct)
  case (1 block n off ld addr ck c)
  show ?case
  proof (cases "ld < n")
    case False
    then show ?thesis by (subst loadLoop.simps) simp
  next
    case more: True
    show ?thesis
    proof (cases "off \<ge> length block")
      case True
      with more show ?thesis by (subst loadLoop.simps) simp
    next
      case False
      then have off: "off < length block" by simp
      define k where "k = min (n - (ld + 1)) (length block - (off + 1))"
      have k: "min (n - ld) (length block - off) = Suc k"
        using more off unfolding k_def min_def by (auto; arith)
      have dr: "drop off block = block ! off # drop (off + 1) block"
        using off by (simp add: Cons_nth_drop_Suc)
      have mp: "map (\<lambda>i. Poke (addr + of_nat i) (block ! (off + i))) [0..<Suc m] =
                Poke addr (block ! off) #
                map (\<lambda>i. Poke (addr + 1 + of_nat i) (block ! (off + 1 + i))) [0..<m]" for m
        by (simp add: upt_conv_Cons map_Suc_upt [symmetric] del: upt_Suc add: add.assoc)
      have le: "(n - ld \<le> length block - off) = (n - (ld + 1) \<le> length block - (off + 1))"
        using more off by auto
      show ?thesis
        apply (subst loadLoop.simps)
        using more off "1.IH" [OF more] False
        apply (simp only: if_True if_False not_le k le)
        apply (simp add: k_def dr call_def mp del: upt_Suc)
        done
    qed
  qed
qed


lemma loadBlock_mismatch:
  assumes "block = [] \<or> unat (drop_bit 8 (registerPairs c ! 4)) \<noteq> unat (block ! 0)"
  shows "loadBlock block c =
           call (SetPC 0x05e2) (setRegisterPair 0 (registerPairs c ! 0 AND 0xfffe) c)"
  using assms by (auto simp add: loadBlock_def Let_def)

lemma loadBlock_verify:
  assumes "block \<noteq> []" "unat (drop_bit 8 (registerPairs c ! 4)) = unat (block ! 0)"
    and "registerPairs c ! 4 AND 1 = 0"
  shows "loadBlock block c =
           call (SetPC 0x05e2) (setRegisterPair 0 (registerPairs c ! 0 OR 1) c)"
  using assms by (simp add: loadBlock_def Let_def)

lemma loadBlock_load:
  assumes "block \<noteq> []" "unat (drop_bit 8 (registerPairs c ! 4)) = unat (block ! 0)"
    and "registerPairs c ! 4 AND 1 \<noteq> 0"
  shows "loadBlock block c =
           call (SetPC 0x05e2)
             (setRegisterPair 0
                (if unat (registerPairs c ! 2) + 2 \<le> length block \<and>
                    foldl (XOR) (block ! 0) (take (unat (registerPairs c ! 2)) (drop 1 block)) =
                      block ! (unat (registerPairs c ! 2) + 1)
                 then registerPairs c ! 0 OR 1 else registerPairs c ! 0 AND 0xfffe)
                (c\<lparr>trace := trace c @
                     map (\<lambda>i. Poke (registerPairs c ! 8 + of_nat i) (block ! (1 + i)))
                       [0..<min (unat (registerPairs c ! 2)) (length block - 1)]\<rparr>))"
proof -
  let ?n = "unat (registerPairs c ! 2)"
  have len: "0 < length block" using assms(1) by simp
  show ?thesis
  proof (cases "?n + 2 \<le> length block")
    case True
    then have m: "min ?n (length block - 1) = ?n" and le: "?n \<le> length block - 1"
      and lt: "Suc ?n < length block" by simp_all
    show ?thesis using assms True
      by (simp add: loadBlock_def Let_def loadLoop_eq m le lt)
  next
    case False
    then have "\<not> (?n \<le> length block - 1 \<and> 1 + min ?n (length block - 1) < length block)"
      using len by (auto simp add: min_def)
    then show ?thesis using assms False
      by (auto simp add: loadBlock_def Let_def loadLoop_eq)
  qed
qed

section \<open>Bits of the flag register and addresses\<close>

lemma carry_set: "(x OR 1) AND 1 = (1 :: u16)"
  by (simp add: bit.conj_disj_distrib2)

lemma carry_clear: "(x AND 0xfffe) AND 1 = (0 :: u16)"
  by (simp add: and.assoc)

lemma others_set: "(x OR 1) AND 0xfffe = x AND (0xfffe :: u16)"
  by (simp add: bit.conj_disj_distrib2)

lemma others_clear: "(x AND 0xfffe) AND 0xfffe = x AND (0xfffe :: u16)"
  by (simp add: and.assoc)

lemma unat_addr: "unat (a + word_of_nat i :: u16) = (unat a + i) mod 65536"
  by (simp add: unat_word_ariths unat_of_nat mod_simps)

lemma addr_wrap: "(word_of_nat ((unat (a :: u16) + i) mod 65536) :: u16) = a + word_of_nat i"
  by (simp add: unat_addr [symmetric])

lemma trapTapeLoad_block:
  assumes "tape w = Some t" and "getNextLoadableBlock E t = (Some block, t')"
  shows "trapTapeLoad E w = w\<lparr>core := loadBlock block (core w), tape := Some t'\<rparr>"
  using assms by (simp add: trapTapeLoad_def)

section \<open>The trap without a block\<close>

text \<open>
  Claim C7. When the tape trap fires and no tape is attached, or the attached tape hands
  out no block, the handler does nothing to the engine: the memory image and the register
  pairs are as before and the trace has no new entry, so there is no poke, no store into
  a register pair (the carry flag of AF included) and no call of \<^verbatim>\<open>setPC\<close>. The
  \<^verbatim>\<open>stopped\<close> flag and the disk buffer are as before too. What the call of
  \<^verbatim>\<open>getNextLoadableBlock\<close> does to the tape object is the tape's own.
\<close>

theorem trap_without_block_is_noop:
  assumes "tape w = None \<or> (\<exists>t. tape w = Some t \<and> fst (getNextLoadableBlock E t) = None)"
  shows "core (trapTapeLoad E w) = core w
       \<and> memoryData (core (trapTapeLoad E w)) = memoryData (core w)
       \<and> registerPairs (core (trapTapeLoad E w)) = registerPairs (core w)
       \<and> trace (core (trapTapeLoad E w)) = trace (core w)
       \<and> stopped (trapTapeLoad E w) = stopped w
       \<and> trdosDisk (trapTapeLoad E w) = trdosDisk w
       \<and> trapTapeLoad E w =
           w\<lparr>tape := map_option (\<lambda>t. snd (getNextLoadableBlock E t)) (tape w)\<rparr>"
  using assms by (auto simp add: trapTapeLoad_def split: option.splits prod.splits)

theorem trap_without_block_is_noop_witness:
  "trapTapeLoad (exampleEngine 0 4 0) (exampleWorker [1, 2, 3, 4, 5, 6, 7, 8, 9, 10, 11, 12] None)
     = exampleWorker [1, 2, 3, 4, 5, 6, 7, 8, 9, 10, 11, 12] None
   \<and> core (trapTapeLoad (exampleEngine 0 4 0)
        (exampleWorker [1, 2, 3, 4, 5, 6, 7, 8, 9, 10, 11, 12] (Some [])))
     = \<lparr>memoryData = [0, 1, 2, 3, 4, 5, 6, 7],
        registerPairs = [1, 2, 3, 4, 5, 6, 7, 8, 9, 10, 11, 12], trace = []\<rparr>"
  using trap_without_block_is_noop
    [of "exampleWorker [1, 2, 3, 4, 5, 6, 7, 8, 9, 10, 11, 12] (Some [])" "exampleEngine 0 4 0"]
  by (simp add: trapTapeLoad_def exampleWorker_def exampleEngine_def listTape_def)

section \<open>A successful load\<close>

text \<open>
  Claim C1. A tape is attached and hands out a block; bit 0 of AF' (slot 4) is 1, the
  first byte of the block is the high byte of AF', the count in DE (slot 2) is at most
  the length of the block minus 2, and the byte at offset count + 1 is the XOR of the
  first byte with the count bytes that follow it. Then the handler sets bit 0 of AF
  (slot 0) and leaves the other register pairs alone, pokes the bytes at offsets 1 to
  count, in this order, at the addresses (IX + i) mod 65536 for i from 0 to count - 1
  (IX is slot 8), and calls \<^verbatim>\<open>setPC(0x05e2)\<close> last. The example is the block
  00 11 22 33 loaded at 0xFFFF: the pokes go to 0xFFFF, then to 0x0000.
\<close>

theorem load_success:
  assumes "tape w = Some t" and "getNextLoadableBlock E t = (Some block, t')"
    and "length (registerPairs (core w)) = 12"
    and "registerPairs (core w) ! 4 AND 1 = 1"
    and "block \<noteq> []"
    and "unat (block ! 0) = unat (drop_bit 8 (registerPairs (core w) ! 4))"
    and "unat (registerPairs (core w) ! 2) + 2 \<le> length block"
    and "block ! (unat (registerPairs (core w) ! 2) + 1) =
           foldl (XOR) (block ! 0) (take (unat (registerPairs (core w) ! 2)) (drop 1 block))"
  shows "registerPairs (core (trapTapeLoad E w)) ! 0 AND 1 = 1
       \<and> registerPairs (core (trapTapeLoad E w)) =
           (registerPairs (core w))[0 := registerPairs (core w) ! 0 OR 1]
       \<and> trace (core (trapTapeLoad E w)) =
           trace (core w) @
           map (\<lambda>i. Poke (word_of_nat ((unat (registerPairs (core w) ! 8) + i) mod 65536))
                       (block ! (i + 1)))
             [0..<unat (registerPairs (core w) ! 2)] @
           [RegisterPairSet 0 (registerPairs (core w) ! 0 OR 1), SetPC 0x05E2]
       \<and> memoryData (core (trapTapeLoad E w)) = memoryData (core w)"
proof -
  let ?c = "core w"
  have load: "registerPairs ?c ! 4 AND 1 \<noteq> 0" using assms(4) by simp
  have m: "min (unat (registerPairs ?c ! 2)) (length block - 1) = unat (registerPairs ?c ! 2)"
    using assms(7) by simp
  have lb: "loadBlock block ?c =
      call (SetPC 0x05e2)
        (setRegisterPair 0 (registerPairs ?c ! 0 OR 1)
           (?c\<lparr>trace := trace ?c @
                map (\<lambda>i. Poke (registerPairs ?c ! 8 + of_nat i) (block ! (1 + i)))
                  [0..<unat (registerPairs ?c ! 2)]\<rparr>))"
    using loadBlock_load [OF assms(5) assms(6) [symmetric] load] assms(7) assms(8) by (simp add: m)
  show ?thesis
    using assms(3)
    by (simp add: trapTapeLoad_block [OF assms(1) assms(2)] lb call_def setRegisterPair_def
        carry_set addr_wrap)
qed

theorem load_success_witness:
  "(0x0001 :: u16) AND 1 = 1
   \<and> unat (0x00 :: byte) = unat (drop_bit 8 (0x0001 :: u16))
   \<and> unat (2 :: u16) + 2 \<le> length [0x00, 0x11, 0x22, 0x33 :: byte]
   \<and> [0x00, 0x11, 0x22, 0x33 :: byte] ! (unat (2 :: u16) + 1) =
       foldl (XOR) 0x00 (take (unat (2 :: u16)) (drop 1 [0x00, 0x11, 0x22, 0x33]))
   \<and> trace (core (trapTapeLoad (exampleEngine 0 4 0)
      (exampleWorker [0, 0, 2, 0, 1, 0, 0, 0, 0xFFFF, 0, 0, 0] (Some [[0x00, 0x11, 0x22, 0x33]]))))
     = [Poke 0xFFFF 0x11, Poke 0x0000 0x22, RegisterPairSet 0 1, SetPC 0x05E2]
   \<and> registerPairs (core (trapTapeLoad (exampleEngine 0 4 0)
      (exampleWorker [0, 0, 2, 0, 1, 0, 0, 0, 0xFFFF, 0, 0, 0] (Some [[0x00, 0x11, 0x22, 0x33]]))))
     = [1, 0, 2, 0, 1, 0, 0, 0, 0xFFFF, 0, 0, 0]"
  using load_success
    [of "exampleWorker [0, 0, 2, 0, 1, 0, 0, 0, 0xFFFF, 0, 0, 0] (Some [[0x00, 0x11, 0x22, 0x33]])"
        "[[0x00, 0x11, 0x22, 0x33]]" "exampleEngine 0 4 0" "[0x00, 0x11, 0x22, 0x33]" "[]"]
  by (simp add: exampleWorker_def exampleEngine_def listTape_def upt_conv_Cons)

section \<open>Verify mode\<close>

text \<open>
  Claim C2 as it is stated, with a block of any content, does not hold: the type of the
  block is compared before the load-or-verify flag is looked at. In verify mode
  (AF' = 0x0000) a block of type 0xFF against the expected type 0x00 clears the carry
  flag, which was set before the trap.
\<close>

theorem verify_type_mismatch_counterexample:
  "tape (exampleWorker [1, 0, 2, 0, 0x0000, 0, 0, 0, 0x8000, 0, 0, 0] (Some [[0xFF, 0x11, 0x22, 0xCC]]))
     = Some [[0xFF, 0x11, 0x22, 0xCC]]
   \<and> listTape [[0xFF, 0x11, 0x22, 0xCC]] = (Some [0xFF, 0x11, 0x22, 0xCC], [])
   \<and> (0x0000 :: u16) AND 1 = 0
   \<and> registerPairs (core (trapTapeLoad (exampleEngine 0 4 0)
        (exampleWorker [1, 0, 2, 0, 0x0000, 0, 0, 0, 0x8000, 0, 0, 0]
           (Some [[0xFF, 0x11, 0x22, 0xCC]])))) ! 0 AND 1 = 0"
  by (simp add: trapTapeLoad_def loadBlock_def exampleWorker_def exampleEngine_def listTape_def
      call_def setRegisterPair_def)

text \<open>
  Claim C2, amended. A tape is attached and hands out a block, bit 0 of AF' is 0 (verify)
  and the first byte of the block is the high byte of AF'. Then the handler sets the
  carry flag whatever the rest of the block, the count in DE and the address in IX are;
  it pokes nothing and calls \<^verbatim>\<open>setPC(0x05e2)\<close>. In the example the byte after the type
  is not a checksum of anything.
\<close>

theorem verify_success:
  assumes "tape w = Some t" and "getNextLoadableBlock E t = (Some block, t')"
    and "length (registerPairs (core w)) = 12"
    and "registerPairs (core w) ! 4 AND 1 = 0"
    and "block \<noteq> []"
    and "unat (block ! 0) = unat (drop_bit 8 (registerPairs (core w) ! 4))"
  shows "registerPairs (core (trapTapeLoad E w)) ! 0 AND 1 = 1
       \<and> registerPairs (core (trapTapeLoad E w)) =
           (registerPairs (core w))[0 := registerPairs (core w) ! 0 OR 1]
       \<and> trace (core (trapTapeLoad E w)) =
           trace (core w) @ [RegisterPairSet 0 (registerPairs (core w) ! 0 OR 1), SetPC 0x05E2]
       \<and> memoryData (core (trapTapeLoad E w)) = memoryData (core w)"
  using assms(3)
  by (simp add: trapTapeLoad_block [OF assms(1) assms(2)]
      loadBlock_verify [OF assms(5) assms(6) [symmetric] assms(4)]
      call_def setRegisterPair_def carry_set)

theorem verify_success_witness:
  "(0x1100 :: u16) AND 1 = 0
   \<and> unat (0x11 :: byte) = unat (drop_bit 8 (0x1100 :: u16))
   \<and> core (trapTapeLoad (exampleEngine 0 4 0)
        (exampleWorker [0x44, 0, 2, 0, 0x1100, 0, 0, 0, 0x8000, 0, 0, 0]
           (Some [[0x11, 0x99]])))
     = \<lparr>memoryData = [0, 1, 2, 3, 4, 5, 6, 7],
        registerPairs = [0x45, 0, 2, 0, 0x1100, 0, 0, 0, 0x8000, 0, 0, 0],
        trace = [RegisterPairSet 0 0x45, SetPC 0x05E2]\<rparr>"
  using verify_success
    [of "exampleWorker [0x44, 0, 2, 0, 0x1100, 0, 0, 0, 0x8000, 0, 0, 0] (Some [[0x11, 0x99]])"
        "[[0x11, 0x99]]" "exampleEngine 0 4 0" "[0x11, 0x99]" "[]"]
  by (simp add: exampleWorker_def exampleEngine_def listTape_def drop_bit_eq_div)

section \<open>A block of the wrong type\<close>

text \<open>
  Claim C4. A tape is attached and hands out a block whose first byte differs from the
  high byte of AF' (or which has no first byte). Then the handler clears the carry flag,
  whatever the load-or-verify flag says, pokes nothing (the trace gains the store into AF
  and the call of \<^verbatim>\<open>setPC\<close> only, and the memory image is as before), and calls
  \<^verbatim>\<open>setPC(0x05e2)\<close>.
\<close>

theorem type_mismatch_fails:
  assumes "tape w = Some t" and "getNextLoadableBlock E t = (Some block, t')"
    and "length (registerPairs (core w)) = 12"
    and "block = [] \<or> unat (block ! 0) \<noteq> unat (drop_bit 8 (registerPairs (core w) ! 4))"
  shows "registerPairs (core (trapTapeLoad E w)) ! 0 AND 1 = 0
       \<and> registerPairs (core (trapTapeLoad E w)) =
           (registerPairs (core w))[0 := registerPairs (core w) ! 0 AND 0xFFFE]
       \<and> trace (core (trapTapeLoad E w)) =
           trace (core w) @
           [RegisterPairSet 0 (registerPairs (core w) ! 0 AND 0xFFFE), SetPC 0x05E2]
       \<and> memoryData (core (trapTapeLoad E w)) = memoryData (core w)"
proof -
  have mm: "block = [] \<or> unat (drop_bit 8 (registerPairs (core w) ! 4)) \<noteq> unat (block ! 0)"
    using assms(4) by auto
  show ?thesis
    using assms(3)
    by (simp add: trapTapeLoad_block [OF assms(1) assms(2)] loadBlock_mismatch [OF mm]
        call_def setRegisterPair_def carry_clear)
qed

theorem type_mismatch_fails_witness:
  "unat (0xFF :: byte) \<noteq> unat (drop_bit 8 (0x0001 :: u16))
   \<and> core (trapTapeLoad (exampleEngine 0 4 0)
        (exampleWorker [0x45, 0, 2, 0, 0x0001, 0, 0, 0, 0x8000, 0, 0, 0]
           (Some [[0xFF, 0x11, 0x22, 0xCC]])))
     = \<lparr>memoryData = [0, 1, 2, 3, 4, 5, 6, 7],
        registerPairs = [0x44, 0, 2, 0, 0x0001, 0, 0, 0, 0x8000, 0, 0, 0],
        trace = [RegisterPairSet 0 0x44, SetPC 0x05E2]\<rparr>"
  using type_mismatch_fails
    [of "exampleWorker [0x45, 0, 2, 0, 0x0001, 0, 0, 0, 0x8000, 0, 0, 0]
           (Some [[0xFF, 0x11, 0x22, 0xCC]])"
        "[[0xFF, 0x11, 0x22, 0xCC]]" "exampleEngine 0 4 0" "[0xFF, 0x11, 0x22, 0xCC]" "[]"]
  by (simp add: exampleWorker_def exampleEngine_def listTape_def drop_bit_eq_div)

section \<open>A load that fails\<close>

text \<open>
  Claim C5. In load mode with a block of the expected type, when the count in DE exceeds
  the bytes that follow the type byte, or the byte after the copied bytes is missing
  (both: length of the block below count + 2), or that byte is not the XOR of the type
  byte with the copied bytes, the handler clears the carry flag and calls
  \<^verbatim>\<open>setPC(0x05e2)\<close>. The bytes poked before the failure stay poked: the trace has the
  pokes of the first \<open>min count (length block - 1)\<close> bytes after the type byte, and after
  them only the store into AF and the call of \<^verbatim>\<open>setPC\<close>. The example asks for 3 bytes
  of the block 00 11 22 33: the checksum byte 33 is poked as a third payload byte.
\<close>

theorem load_failure_keeps_pokes:
  assumes "tape w = Some t" and "getNextLoadableBlock E t = (Some block, t')"
    and "length (registerPairs (core w)) = 12"
    and "registerPairs (core w) ! 4 AND 1 = 1"
    and "block \<noteq> []"
    and "unat (block ! 0) = unat (drop_bit 8 (registerPairs (core w) ! 4))"
    and "length block < unat (registerPairs (core w) ! 2) + 2 \<or>
         block ! (unat (registerPairs (core w) ! 2) + 1) \<noteq>
           foldl (XOR) (block ! 0) (take (unat (registerPairs (core w) ! 2)) (drop 1 block))"
  shows "registerPairs (core (trapTapeLoad E w)) ! 0 AND 1 = 0
       \<and> registerPairs (core (trapTapeLoad E w)) =
           (registerPairs (core w))[0 := registerPairs (core w) ! 0 AND 0xFFFE]
       \<and> trace (core (trapTapeLoad E w)) =
           trace (core w) @
           map (\<lambda>i. Poke (word_of_nat ((unat (registerPairs (core w) ! 8) + i) mod 65536))
                       (block ! (i + 1)))
             [0..<min (unat (registerPairs (core w) ! 2)) (length block - 1)] @
           [RegisterPairSet 0 (registerPairs (core w) ! 0 AND 0xFFFE), SetPC 0x05E2]
       \<and> memoryData (core (trapTapeLoad E w)) = memoryData (core w)"
proof -
  let ?c = "core w"
  have load: "registerPairs ?c ! 4 AND 1 \<noteq> 0" using assms(4) by simp
  have bad: "\<not> (unat (registerPairs ?c ! 2) + 2 \<le> length block \<and>
      foldl (XOR) (block ! 0) (take (unat (registerPairs ?c ! 2)) (drop 1 block)) =
        block ! (unat (registerPairs ?c ! 2) + 1))"
    using assms(7) by auto
  have lb: "loadBlock block ?c =
      call (SetPC 0x05e2)
        (setRegisterPair 0 (registerPairs ?c ! 0 AND 0xfffe)
           (?c\<lparr>trace := trace ?c @
                map (\<lambda>i. Poke (registerPairs ?c ! 8 + of_nat i) (block ! (1 + i)))
                  [0..<min (unat (registerPairs ?c ! 2)) (length block - 1)]\<rparr>))"
    using loadBlock_load [OF assms(5) assms(6) [symmetric] load] bad by (simp only: if_False)
  show ?thesis
    using assms(3)
    by (simp add: trapTapeLoad_block [OF assms(1) assms(2)] lb call_def setRegisterPair_def
        carry_clear addr_wrap)
qed

theorem load_failure_keeps_pokes_witness:
  "(0x0001 :: u16) AND 1 = 1
   \<and> length [0x00, 0x11, 0x22, 0x33 :: byte] < unat (3 :: u16) + 2
   \<and> core (trapTapeLoad (exampleEngine 0 4 0)
        (exampleWorker [0x45, 0, 3, 0, 0x0001, 0, 0, 0, 0x8000, 0, 0, 0]
           (Some [[0x00, 0x11, 0x22, 0x33]])))
     = \<lparr>memoryData = [0, 1, 2, 3, 4, 5, 6, 7],
        registerPairs = [0x44, 0, 3, 0, 0x0001, 0, 0, 0, 0x8000, 0, 0, 0],
        trace = [Poke 0x8000 0x11, Poke 0x8001 0x22, Poke 0x8002 0x33,
                 RegisterPairSet 0 0x44, SetPC 0x05E2]\<rparr>"
  using load_failure_keeps_pokes
    [of "exampleWorker [0x45, 0, 3, 0, 0x0001, 0, 0, 0, 0x8000, 0, 0, 0]
           (Some [[0x00, 0x11, 0x22, 0x33]])"
        "[[0x00, 0x11, 0x22, 0x33]]" "exampleEngine 0 4 0" "[0x00, 0x11, 0x22, 0x33]" "[]"]
  by (simp add: exampleWorker_def exampleEngine_def listTape_def upt_conv_Cons)

text \<open>The same block with a wrong checksum byte, and a count of 2.\<close>

lemma load_checksum_mismatch_example:
  "core (trapTapeLoad (exampleEngine 0 4 0)
        (exampleWorker [0x45, 0, 2, 0, 0x0001, 0, 0, 0, 0x8000, 0, 0, 0]
           (Some [[0x00, 0x11, 0x22, 0x34]])))
     = \<lparr>memoryData = [0, 1, 2, 3, 4, 5, 6, 7],
        registerPairs = [0x44, 0, 2, 0, 0x0001, 0, 0, 0, 0x8000, 0, 0, 0],
        trace = [Poke 0x8000 0x11, Poke 0x8001 0x22, RegisterPairSet 0 0x44, SetPC 0x05E2]\<rparr>"
  by (simp add: trapTapeLoad_def loadBlock_load exampleWorker_def exampleEngine_def listTape_def
      call_def setRegisterPair_def upt_conv_Cons)

section \<open>A load of no bytes\<close>

text \<open>
  Claim C9. In load mode with a block of the expected type and a count of 0 in DE, the
  loop body does not run: nothing is poked. The checksum is the type byte, so the carry
  flag is set if and only if the block has a byte at offset 1 and that byte equals the
  byte at offset 0; it is cleared otherwise.
\<close>

theorem zero_count_load:
  assumes "tape w = Some t" and "getNextLoadableBlock E t = (Some block, t')"
    and "length (registerPairs (core w)) = 12"
    and "registerPairs (core w) ! 4 AND 1 = 1"
    and "block \<noteq> []"
    and "unat (block ! 0) = unat (drop_bit 8 (registerPairs (core w) ! 4))"
    and "registerPairs (core w) ! 2 = 0"
  shows "(registerPairs (core (trapTapeLoad E w)) ! 0 AND 1 = 1) =
           (1 < length block \<and> block ! 1 = block ! 0)
       \<and> (registerPairs (core (trapTapeLoad E w)) ! 0 AND 1 = 0) =
           (\<not> (1 < length block \<and> block ! 1 = block ! 0))
       \<and> trace (core (trapTapeLoad E w)) =
           trace (core w) @
           [RegisterPairSet 0 (registerPairs (core (trapTapeLoad E w)) ! 0), SetPC 0x05E2]
       \<and> memoryData (core (trapTapeLoad E w)) = memoryData (core w)"
proof -
  let ?c = "core w"
  have load: "registerPairs ?c ! 4 AND 1 \<noteq> 0" using assms(4) by simp
  have lb: "loadBlock block ?c =
      call (SetPC 0x05e2)
        (setRegisterPair 0
           (if 2 \<le> length block \<and> block ! 0 = block ! 1
            then registerPairs ?c ! 0 OR 1 else registerPairs ?c ! 0 AND 0xfffe) ?c)"
    using loadBlock_load [OF assms(5) assms(6) [symmetric] load] by (simp add: assms(7))
  have two: "(2 \<le> length block) = (1 < length block)" by auto
  show ?thesis
    using assms(3)
    by (auto simp add: trapTapeLoad_block [OF assms(1) assms(2)] lb call_def setRegisterPair_def
        carry_clear carry_set two)
qed

theorem zero_count_load_witness:
  "(0x0701 :: u16) AND 1 = 1
   \<and> unat (0x07 :: byte) = unat (drop_bit 8 (0x0701 :: u16))
   \<and> core (trapTapeLoad (exampleEngine 0 4 0)
        (exampleWorker [0x44, 0, 0, 0, 0x0701, 0, 0, 0, 0x8000, 0, 0, 0] (Some [[0x07, 0x07]])))
     = \<lparr>memoryData = [0, 1, 2, 3, 4, 5, 6, 7],
        registerPairs = [0x45, 0, 0, 0, 0x0701, 0, 0, 0, 0x8000, 0, 0, 0],
        trace = [RegisterPairSet 0 0x45, SetPC 0x05E2]\<rparr>
   \<and> core (trapTapeLoad (exampleEngine 0 4 0)
        (exampleWorker [0x45, 0, 0, 0, 0x0701, 0, 0, 0, 0x8000, 0, 0, 0] (Some [[0x07]])))
     = \<lparr>memoryData = [0, 1, 2, 3, 4, 5, 6, 7],
        registerPairs = [0x44, 0, 0, 0, 0x0701, 0, 0, 0, 0x8000, 0, 0, 0],
        trace = [RegisterPairSet 0 0x44, SetPC 0x05E2]\<rparr>"
  using zero_count_load
    [of "exampleWorker [0x44, 0, 0, 0, 0x0701, 0, 0, 0, 0x8000, 0, 0, 0] (Some [[0x07, 0x07]])"
        "[[0x07, 0x07]]" "exampleEngine 0 4 0" "[0x07, 0x07]" "[]"]
    zero_count_load
    [of "exampleWorker [0x45, 0, 0, 0, 0x0701, 0, 0, 0, 0x8000, 0, 0, 0] (Some [[0x07]])"
        "[[0x07]]" "exampleEngine 0 4 0" "[0x07]" "[]"]
  by (simp add: exampleWorker_def exampleEngine_def listTape_def trapTapeLoad_def loadBlock_load
      call_def setRegisterPair_def drop_bit_eq_div)

section \<open>What the trap changes in the register file\<close>

text \<open>
  Whatever the block, the handler pokes, stores one of the two values into AF and calls
  \<^verbatim>\<open>setPC(0x05e2)\<close>.
\<close>

lemma loadBlock_shape:
  "\<exists>ps v. loadBlock block c =
             call (SetPC 0x05e2) (setRegisterPair 0 v (c\<lparr>trace := trace c @ ps\<rparr>))
         \<and> (v = registerPairs c ! 0 OR 1 \<or> v = registerPairs c ! 0 AND 0xfffe)
         \<and> (\<forall>op \<in> set ps. \<exists>a b. op = Poke a b)"
proof (cases "block = [] \<or> unat (drop_bit 8 (registerPairs c ! 4)) \<noteq> unat (block ! 0)")
  case True
  have "loadBlock block c =
          call (SetPC 0x05e2)
            (setRegisterPair 0 (registerPairs c ! 0 AND 0xfffe) (c\<lparr>trace := trace c @ []\<rparr>))"
    by (simp add: loadBlock_mismatch [OF True])
  then show ?thesis
    by (intro exI [of _ "[]"] exI [of _ "registerPairs c ! 0 AND 0xfffe"]) simp
next
  case False
  then have ne: "block \<noteq> []"
    and ty: "unat (drop_bit 8 (registerPairs c ! 4)) = unat (block ! 0)" by simp_all
  show ?thesis
  proof (cases "registerPairs c ! 4 AND 1 = 0")
    case True
    have "loadBlock block c =
            call (SetPC 0x05e2)
              (setRegisterPair 0 (registerPairs c ! 0 OR 1) (c\<lparr>trace := trace c @ []\<rparr>))"
      by (simp add: loadBlock_verify [OF ne ty True])
    then show ?thesis
      by (intro exI [of _ "[]"] exI [of _ "registerPairs c ! 0 OR 1"]) simp
  next
    case False
    let ?ps = "map (\<lambda>i. Poke (registerPairs c ! 8 + of_nat i) (block ! (1 + i)))
                 [0..<min (unat (registerPairs c ! 2)) (length block - 1)]"
    let ?v = "if unat (registerPairs c ! 2) + 2 \<le> length block \<and>
                 foldl (XOR) (block ! 0) (take (unat (registerPairs c ! 2)) (drop 1 block)) =
                   block ! (unat (registerPairs c ! 2) + 1)
              then registerPairs c ! 0 OR 1 else registerPairs c ! 0 AND 0xfffe"
    have "loadBlock block c =
            call (SetPC 0x05e2) (setRegisterPair 0 ?v (c\<lparr>trace := trace c @ ?ps\<rparr>))"
      by (rule loadBlock_load [OF ne ty False])
    moreover have "?v = registerPairs c ! 0 OR 1 \<or> ?v = registerPairs c ! 0 AND 0xfffe"
      by simp
    moreover have "\<forall>op \<in> set ?ps. \<exists>a b. op = Poke a b" by auto
    ultimately show ?thesis
      by (intro exI [of _ ?ps] exI [of _ ?v] conjI)
  qed
qed

text \<open>
  Claim C10. When the handler processes a block, the register pairs of slots 1 to 11 are
  as before, in particular IX (slot 8) is not advanced and DE (slot 2) is not
  decremented, and the bits 1 to 15 of AF are as before; the operations on the engine
  are pokes, one store into AF and the call of \<^verbatim>\<open>setPC(0x05e2)\<close>. So the carry flag and
  the program counter are all that changes in the register file.
\<close>

theorem trap_changes_only_carry_and_pc:
  assumes "tape w = Some t" and "getNextLoadableBlock E t = (Some block, t')"
    and "length (registerPairs (core w)) = 12"
  shows "length (registerPairs (core (trapTapeLoad E w))) = 12
       \<and> drop 1 (registerPairs (core (trapTapeLoad E w))) = drop 1 (registerPairs (core w))
       \<and> registerPairs (core (trapTapeLoad E w)) ! 0 AND 0xFFFE =
           registerPairs (core w) ! 0 AND 0xFFFE
       \<and> registerPairs (core (trapTapeLoad E w)) ! 8 = registerPairs (core w) ! 8
       \<and> registerPairs (core (trapTapeLoad E w)) ! 2 = registerPairs (core w) ! 2
       \<and> (\<exists>ps v. trace (core (trapTapeLoad E w)) =
                    trace (core w) @ ps @ [RegisterPairSet 0 v, SetPC 0x05E2]
                \<and> (\<forall>op \<in> set ps. \<exists>a b. op = Poke a b))"
proof -
  obtain ps v where lb: "loadBlock block (core w) =
        call (SetPC 0x05e2) (setRegisterPair 0 v ((core w)\<lparr>trace := trace (core w) @ ps\<rparr>))"
    and v: "v = registerPairs (core w) ! 0 OR 1 \<or> v = registerPairs (core w) ! 0 AND 0xfffe"
    and ps: "\<forall>op \<in> set ps. \<exists>a b. op = Poke a b"
    using loadBlock_shape [of block "core w"] by blast
  have regs: "registerPairs (core (trapTapeLoad E w)) = (registerPairs (core w))[0 := v]"
    by (simp add: trapTapeLoad_block [OF assms(1) assms(2)] lb call_def setRegisterPair_def)
  have tr: "trace (core (trapTapeLoad E w)) =
              trace (core w) @ ps @ [RegisterPairSet 0 v, SetPC 0x05E2]"
    by (simp add: trapTapeLoad_block [OF assms(1) assms(2)] lb call_def setRegisterPair_def)
  have bits: "v AND 0xFFFE = registerPairs (core w) ! 0 AND 0xFFFE"
    using v by (auto simp add: others_set others_clear)
  have "drop 1 ((registerPairs (core w))[0 := v]) = drop 1 (registerPairs (core w))"
    by (simp add: drop_update_cancel)
  then have "drop 1 (registerPairs (core (trapTapeLoad E w))) = drop 1 (registerPairs (core w))"
    by (simp only: regs)
  moreover have "length (registerPairs (core (trapTapeLoad E w))) = 12"
    using assms(3) by (simp add: regs)
  moreover have "registerPairs (core (trapTapeLoad E w)) ! 0 AND 0xFFFE =
      registerPairs (core w) ! 0 AND 0xFFFE"
    using assms(3) bits by (simp add: regs)
  moreover have "registerPairs (core (trapTapeLoad E w)) ! 8 = registerPairs (core w) ! 8"
    by (simp add: regs)
  moreover have "registerPairs (core (trapTapeLoad E w)) ! 2 = registerPairs (core w) ! 2"
    by (simp add: regs)
  moreover have "\<exists>ps v. trace (core (trapTapeLoad E w)) =
                    trace (core w) @ ps @ [RegisterPairSet 0 v, SetPC 0x05E2]
                \<and> (\<forall>op \<in> set ps. \<exists>a b. op = Poke a b)"
    using tr ps by blast
  ultimately show ?thesis by (intro conjI)
qed

theorem trap_changes_only_carry_and_pc_witness:
  "registerPairs (core (trapTapeLoad (exampleEngine 0 4 0)
      (exampleWorker [0x44, 1, 2, 3, 0x0001, 5, 6, 7, 0x8000, 9, 10, 11]
         (Some [[0x00, 0x11, 0x22, 0x33]]))))
     = [0x45, 1, 2, 3, 0x0001, 5, 6, 7, 0x8000, 9, 10, 11]
   \<and> trace (core (trapTapeLoad (exampleEngine 0 4 0)
      (exampleWorker [0x44, 1, 2, 3, 0x0001, 5, 6, 7, 0x8000, 9, 10, 11]
         (Some [[0x00, 0x11, 0x22, 0x33]]))))
     = [Poke 0x8000 0x11, Poke 0x8001 0x22, RegisterPairSet 0 0x45, SetPC 0x05E2]"
  using trap_changes_only_carry_and_pc
    [of "exampleWorker [0x44, 1, 2, 3, 0x0001, 5, 6, 7, 0x8000, 9, 10, 11]
           (Some [[0x00, 0x11, 0x22, 0x33]])"
        "[[0x00, 0x11, 0x22, 0x33]]" "exampleEngine 0 4 0" "[0x00, 0x11, 0x22, 0x33]" "[]"]
  by (simp add: exampleWorker_def exampleEngine_def listTape_def trapTapeLoad_def loadBlock_load
      call_def setRegisterPair_def upt_conv_Cons)

section \<open>Loading a snapshot\<close>

text \<open>
  A page that fits in the memory image is stored at \<open>MACHINE_MEMORY + page * 0x4000\<close>
  and the length of the image does not change; a page that does not fit raises
  \<^verbatim>\<open>RangeError\<close>.
\<close>

lemma loadMemoryPage_fits:
  assumes "MACHINE_MEMORY E + page * 0x4000 + length data \<le> length (memoryData c)"
  shows "\<exists>m. loadMemoryPage E page data c =
           Inr (c\<lparr>memoryData := m,
                  trace := trace c @ [MemorySet (MACHINE_MEMORY E + page * 0x4000) data]\<rparr>)
       \<and> length m = length (memoryData c)
       \<and> take (length data) (drop (MACHINE_MEMORY E + page * 0x4000) m) = data"
  using assms
  by (intro exI [of _ "take (MACHINE_MEMORY E + page * 0x4000) (memoryData c) @ data @
        drop (MACHINE_MEMORY E + page * 0x4000 + length data) (memoryData c)"])
     (simp add: loadMemoryPage_def typedArraySet_def)

lemma loadMemoryPage_overflow:
  assumes "length (memoryData c) < MACHINE_MEMORY E + page * 0x4000 + length data"
  shows "loadMemoryPage E page data c = Inl RangeError"
  using assms by (simp add: loadMemoryPage_def typedArraySet_def)

lemma loadPages_fit:
  assumes "\<forall>(page, data) \<in> set ps.
             MACHINE_MEMORY E + page * 0x4000 + length data \<le> length (memoryData c)"
  shows "\<exists>m. loadPages E ps c =
           Inr (c\<lparr>memoryData := m,
                  trace := trace c @
                    map (\<lambda>(page, data). MemorySet (MACHINE_MEMORY E + page * 0x4000) data) ps\<rparr>)
       \<and> length m = length (memoryData c)"
  using assms
proof (induction ps arbitrary: c)
  case Nil
  then show ?case by (intro exI [of _ "memoryData c"]) simp
next
  case (Cons pd ps)
  obtain page data where pd: "pd = (page, data)" by (cases pd)
  from Cons.prems pd
  have fit: "MACHINE_MEMORY E + page * 0x4000 + length data \<le> length (memoryData c)"
    by simp
  then obtain m where m: "loadMemoryPage E page data c =
           Inr (c\<lparr>memoryData := m,
                  trace := trace c @ [MemorySet (MACHINE_MEMORY E + page * 0x4000) data]\<rparr>)"
    and len: "length m = length (memoryData c)"
    using loadMemoryPage_fits [of E page data c] by blast
  let ?c1 = "c\<lparr>memoryData := m,
                trace := trace c @ [MemorySet (MACHINE_MEMORY E + page * 0x4000) data]\<rparr>"
  have "\<forall>(page, data) \<in> set ps.
          MACHINE_MEMORY E + page * 0x4000 + length data \<le> length (memoryData ?c1)"
    using Cons.prems len by simp
  from Cons.IH [OF this] obtain m' where
    rest: "loadPages E ps ?c1 =
             Inr (?c1\<lparr>memoryData := m',
                    trace := trace ?c1 @
                      map (\<lambda>(page, data). MemorySet (MACHINE_MEMORY E + page * 0x4000) data) ps\<rparr>)"
    and len': "length m' = length (memoryData ?c1)"
    by blast
  show ?case
    by (intro exI [of _ m']) (simp add: pd m rest len' len)
qed


lemma setRegisterPairs_all:
  "fold (\<lambda>(i, r). setRegisterPair i (of_nat (registers s r))) (enumerate 0 registerNames) c =
     c\<lparr>registerPairs :=
          (registerPairs c)
            [0 := of_nat (registers s ''AF''), 1 := of_nat (registers s ''BC''),
             2 := of_nat (registers s ''DE''), 3 := of_nat (registers s ''HL''),
             4 := of_nat (registers s ''AF_''), 5 := of_nat (registers s ''BC_''),
             6 := of_nat (registers s ''DE_''), 7 := of_nat (registers s ''HL_''),
             8 := of_nat (registers s ''IX''), 9 := of_nat (registers s ''IY''),
             10 := of_nat (registers s ''SP''), 11 := of_nat (registers s ''IR'')],
        trace := trace c @
          [RegisterPairSet 0 (of_nat (registers s ''AF'')),
           RegisterPairSet 1 (of_nat (registers s ''BC'')),
           RegisterPairSet 2 (of_nat (registers s ''DE'')),
           RegisterPairSet 3 (of_nat (registers s ''HL'')),
           RegisterPairSet 4 (of_nat (registers s ''AF_'')),
           RegisterPairSet 5 (of_nat (registers s ''BC_'')),
           RegisterPairSet 6 (of_nat (registers s ''DE_'')),
           RegisterPairSet 7 (of_nat (registers s ''HL_'')),
           RegisterPairSet 8 (of_nat (registers s ''IX'')),
           RegisterPairSet 9 (of_nat (registers s ''IY'')),
           RegisterPairSet 10 (of_nat (registers s ''SP'')),
           RegisterPairSet 11 (of_nat (registers s ''IR''))]\<rparr>"
  by (simp add: registerNames_def setRegisterPair_def eval_nat_numeral)

text \<open>
  The memory image after the copies of the pages: the copies in their order, each at
  \<open>MACHINE_MEMORY + page * 0x4000\<close>; the length of the image is kept, a byte outside
  the slots is kept, and with distinct page indices and pages of at most 0x4000 bytes
  each slot ends with the bytes of its page.
\<close>

lemma loadPages_memory:
  assumes "\<forall>(page, data) \<in> set ps.
             MACHINE_MEMORY E + page * 0x4000 + length data \<le> length (memoryData c)"
  shows "loadPages E ps c =
           Inr (c\<lparr>memoryData :=
                    fold (\<lambda>(page, data) m.
                            take (MACHINE_MEMORY E + page * 0x4000) m @ data @
                            drop (MACHINE_MEMORY E + page * 0x4000 + length data) m)
                      ps (memoryData c),
                  trace := trace c @
                    map (\<lambda>(page, data). MemorySet (MACHINE_MEMORY E + page * 0x4000) data) ps\<rparr>)"
  using assms
proof (induction ps arbitrary: c)
  case Nil
  then show ?case by simp
next
  case (Cons pd ps)
  obtain page data where pd: "pd = (page, data)" by (cases pd)
  let ?off = "MACHINE_MEMORY E + page * 0x4000"
  let ?m = "take ?off (memoryData c) @ data @ drop (?off + length data) (memoryData c)"
  let ?c1 = "c\<lparr>memoryData := ?m, trace := trace c @ [MemorySet ?off data]\<rparr>"
  from Cons.prems pd have fit: "?off + length data \<le> length (memoryData c)" by simp
  then have one: "loadMemoryPage E page data c = Inr ?c1"
    by (simp add: loadMemoryPage_def typedArraySet_def)
  have len: "length ?m = length (memoryData c)" using fit by simp
  have "\<forall>(page, data) \<in> set ps.
          MACHINE_MEMORY E + page * 0x4000 + length data \<le> length (memoryData ?c1)"
    using Cons.prems len by simp
  from Cons.IH [OF this] show ?case
    by (simp add: pd one)
qed

lemma storePages_length:
  assumes "\<forall>(page, data) \<in> set ps. b + page * 0x4000 + length data \<le> length m"
  shows "length (fold (\<lambda>(page, data) m.
                  take (b + page * 0x4000) m @ data @ drop (b + page * 0x4000 + length data) m)
                ps m) = length (m :: bytes)"
  using assms
proof (induction ps arbitrary: m)
  case Nil
  then show ?case by simp
next
  case (Cons pd ps)
  obtain page data where pd: "pd = (page, data)" by (cases pd)
  let ?m = "take (b + page * 0x4000) m @ data @ drop (b + page * 0x4000 + length data) m"
  from Cons.prems pd have fit: "b + page * 0x4000 + length data \<le> length m" by simp
  then have len: "length ?m = length m" by simp
  have "\<forall>(page, data) \<in> set ps. b + page * 0x4000 + length data \<le> length ?m"
    using Cons.prems len by simp
  from Cons.IH [OF this] fit show ?case by (simp add: pd)
qed

lemma storePages_outside:
  assumes "\<forall>(page, data) \<in> set ps. b + page * 0x4000 + length data \<le> length m"
    and "\<forall>(page, data) \<in> set ps. i < b + page * 0x4000 \<or> b + page * 0x4000 + length data \<le> i"
    and "i < length m"
  shows "fold (\<lambda>(page, data) m.
                  take (b + page * 0x4000) m @ data @ drop (b + page * 0x4000 + length data) m)
                ps m ! i = (m :: bytes) ! i"
  using assms
proof (induction ps arbitrary: m)
  case Nil
  then show ?case by simp
next
  case (Cons pd ps)
  obtain page data where pd: "pd = (page, data)" by (cases pd)
  let ?off = "b + page * 0x4000"
  let ?m = "take ?off m @ data @ drop (?off + length data) m"
  from Cons.prems(1) pd have fit: "?off + length data \<le> length m" by simp
  then have len: "length ?m = length m" by simp
  from Cons.prems(2) pd have out: "i < ?off \<or> ?off + length data \<le> i" by simp
  have here: "?m ! i = m ! i"
  proof (cases "i < ?off")
    case True
    then show ?thesis using fit by (simp add: nth_append)
  next
    case False
    then have ge: "?off + length data \<le> i" using out by simp
    then show ?thesis using fit Cons.prems(3)
      by (auto simp add: nth_append min_def)
  qed
  have "\<forall>(page, data) \<in> set ps. b + page * 0x4000 + length data \<le> length ?m"
    using Cons.prems(1) len by simp
  moreover have "\<forall>(page, data) \<in> set ps. i < b + page * 0x4000 \<or> b + page * 0x4000 + length data \<le> i"
    using Cons.prems(2) by simp
  moreover have "i < length ?m" using Cons.prems(3) len by simp
  ultimately have "fold (\<lambda>(page, data) m.
                  take (b + page * 0x4000) m @ data @ drop (b + page * 0x4000 + length data) m)
                ps ?m ! i = ?m ! i"
    by (rule Cons.IH)
  then show ?case by (simp add: pd here)
qed


lemma storePages_slot:
  assumes "\<forall>(page, data) \<in> set ps. b + page * 0x4000 + length data \<le> length (m :: bytes)"
    and "distinct (map fst ps)"
    and "\<forall>(page, data) \<in> set ps. length data \<le> 0x4000"
    and "(p, d) \<in> set ps" and "j < length d"
  shows "fold (\<lambda>(page, data) m.
                  take (b + page * 0x4000) m @ data @ drop (b + page * 0x4000 + length data) m)
                ps m ! (b + p * 0x4000 + j) = d ! j"
  using assms
proof (induction ps arbitrary: m)
  case Nil
  then show ?case by simp
next
  case (Cons pd ps)
  obtain page data where pd: "pd = (page, data)" by (cases pd)
  let ?off = "b + page * 0x4000"
  let ?m = "take ?off m @ data @ drop (?off + length data) m"
  from Cons.prems(1) pd have fit: "?off + length data \<le> length m" by simp
  then have len: "length ?m = length m" by simp
  have fits: "\<forall>(page, data) \<in> set ps. b + page * 0x4000 + length data \<le> length ?m"
    using Cons.prems(1) len by simp
  show ?case
  proof (cases "(p, d) \<in> set ps")
    case True
    have "distinct (map fst ps)" using Cons.prems(2) by simp
    moreover have "\<forall>(page, data) \<in> set ps. length data \<le> 0x4000" using Cons.prems(3) by simp
    ultimately have "fold (\<lambda>(page, data) m.
                  take (b + page * 0x4000) m @ data @ drop (b + page * 0x4000 + length data) m)
                ps ?m ! (b + p * 0x4000 + j) = d ! j"
      using fits True Cons.prems(5) by (intro Cons.IH)
    then show ?thesis by (simp add: pd)
  next
    case False
    then have eq: "page = p" "data = d" using Cons.prems(4) pd by auto
    have notin: "p \<notin> fst ` set ps" using Cons.prems(2) pd eq by simp
    have jlt: "j < 0x4000" using Cons.prems(3,5) pd eq by simp
    have out: "\<forall>(page', data') \<in> set ps.
        b + p * 0x4000 + j < b + page' * 0x4000 \<or> b + page' * 0x4000 + length data' \<le> b + p * 0x4000 + j"
    proof (intro ballI, clarify)
      fix p' d' assume mem: "(p', d') \<in> set ps"
      assume "\<not> b + p' * 0x4000 + length d' \<le> b + p * 0x4000 + j"
      have ne: "p' \<noteq> p" using mem notin by force
      have l': "length d' \<le> 0x4000" using Cons.prems(3) mem by auto
      show "b + p * 0x4000 + j < b + p' * 0x4000"
      proof (cases "p < p'")
        case True
        then have "Suc p \<le> p'" by simp
        then have "Suc p * 0x4000 \<le> p' * 0x4000" by (rule mult_le_mono1)
        then show ?thesis using jlt by simp
      next
        case False
        then have "Suc p' \<le> p" using ne by simp
        then have "Suc p' * 0x4000 \<le> p * 0x4000" by (rule mult_le_mono1)
        then have "b + p' * 0x4000 + length d' \<le> b + p * 0x4000 + j" using l' by simp
        then show ?thesis using \<open>\<not> b + p' * 0x4000 + length d' \<le> b + p * 0x4000 + j\<close> by simp
      qed
    qed
    have inside: "b + p * 0x4000 + j < length ?m"
      using fit Cons.prems(5) eq len by simp
    have "fold (\<lambda>(page, data) m.
                  take (b + page * 0x4000) m @ data @ drop (b + page * 0x4000 + length data) m)
                ps ?m ! (b + p * 0x4000 + j) = ?m ! (b + p * 0x4000 + j)"
      by (rule storePages_outside [where i = "b + p * 0x4000 + j", OF fits out inside])
    also have "\<dots> = d ! j"
      using fit Cons.prems(5) eq by (simp add: nth_append)
    finally show ?thesis by (simp add: pd)
  qed
qed

text \<open>
  Claim C8. For a snapshot whose pages have their slots inside the memory image, the
  loader performs, in this order: \<^verbatim>\<open>setMachineType\<close>; the copy of each page to
  \<open>MACHINE_MEMORY + page * 0x4000\<close>, in the order of the pages; the stores into the
  register pairs 0 to 11 from AF, BC, DE, HL, AF', BC', DE', HL', IX, IY, SP, IR;
  \<^verbatim>\<open>setPC\<close>, \<^verbatim>\<open>setIFF1\<close>, \<^verbatim>\<open>setIFF2\<close>, \<^verbatim>\<open>setIM\<close>, \<^verbatim>\<open>setHalted\<close>; the write of
  the border colour to port 0x00FE; when the model is not 48, the write of the paging
  flags to port 0x7FFD; \<^verbatim>\<open>setTStates\<close>. Afterwards the memory image is the old one
  with the pages stored at their slots (each slot holds the bytes of its page when the
  page indices are distinct and no page is longer than 0x4000 bytes), and the register
  pairs hold the low 16 bits of the snapshot's values. The loader does not check the
  snapshot: a page without a slot is the caller's error, and the copy raises there
  (lemma \<open>snapshot_page_out_of_range\<close> below). The examples store pages at the indices
  0 and 1 of an image of 32768 bytes.
\<close>

theorem snapshot_order:
  assumes "\<forall>(page, data) \<in> set (memoryPages s).
             MACHINE_MEMORY E + page * 0x4000 + length data \<le> length (memoryData c)"
  shows "\<exists>c'. loadSnapshot E s c = Inr c'
       \<and> trace c' =
           trace c @
           [SetMachineType (model s)] @
           map (\<lambda>(page, data). MemorySet (MACHINE_MEMORY E + page * 0x4000) data)
             (memoryPages s) @
           [RegisterPairSet 0 (of_nat (registers s ''AF'')),
            RegisterPairSet 1 (of_nat (registers s ''BC'')),
            RegisterPairSet 2 (of_nat (registers s ''DE'')),
            RegisterPairSet 3 (of_nat (registers s ''HL'')),
            RegisterPairSet 4 (of_nat (registers s ''AF_'')),
            RegisterPairSet 5 (of_nat (registers s ''BC_'')),
            RegisterPairSet 6 (of_nat (registers s ''DE_'')),
            RegisterPairSet 7 (of_nat (registers s ''HL_'')),
            RegisterPairSet 8 (of_nat (registers s ''IX'')),
            RegisterPairSet 9 (of_nat (registers s ''IY'')),
            RegisterPairSet 10 (of_nat (registers s ''SP'')),
            RegisterPairSet 11 (of_nat (registers s ''IR''))] @
           [SetPC (registers s ''PC''), SetIFF1 (registers s ''iff1''),
            SetIFF2 (registers s ''iff2''), SetIM (registers s ''im''),
            SetHalted (halted s)] @
           [WritePort 0x00FE (borderColour (ulaState s))] @
           (if model s \<noteq> 48 then [WritePort 0x7FFD (pagingFlags (ulaState s))] else []) @
           [SetTStates (tstates s)]
       \<and> memoryData c' =
           fold (\<lambda>(page, data) m.
                   take (MACHINE_MEMORY E + page * 0x4000) m @ data @
                   drop (MACHINE_MEMORY E + page * 0x4000 + length data) m)
             (memoryPages s) (memoryData c)
       \<and> length (memoryData c') = length (memoryData c)
       \<and> (distinct (map fst (memoryPages s)) \<and>
            (\<forall>(page, data) \<in> set (memoryPages s). length data \<le> 0x4000) \<longrightarrow>
            (\<forall>(page, data) \<in> set (memoryPages s). \<forall>j < length data.
               memoryData c' ! (MACHINE_MEMORY E + page * 0x4000 + j) = data ! j))
       \<and> registerPairs c' =
           (registerPairs c)
             [0 := of_nat (registers s ''AF''), 1 := of_nat (registers s ''BC''),
              2 := of_nat (registers s ''DE''), 3 := of_nat (registers s ''HL''),
              4 := of_nat (registers s ''AF_''), 5 := of_nat (registers s ''BC_''),
              6 := of_nat (registers s ''DE_''), 7 := of_nat (registers s ''HL_''),
              8 := of_nat (registers s ''IX''), 9 := of_nat (registers s ''IY''),
              10 := of_nat (registers s ''SP''), 11 := of_nat (registers s ''IR'')]"
proof -
  let ?c0 = "call (SetMachineType (model s)) c"
  let ?store = "\<lambda>(page, data) m.
                   take (MACHINE_MEMORY E + page * 0x4000) m @ data @
                   drop (MACHINE_MEMORY E + page * 0x4000 + length data) m"
  let ?m = "fold ?store (memoryPages s) (memoryData c)"
  have "\<forall>(page, data) \<in> set (memoryPages s).
          MACHINE_MEMORY E + page * 0x4000 + length data \<le> length (memoryData ?c0)"
    using assms by (simp add: call_def)
  from loadPages_memory [OF this]
  have pages: "loadPages E (memoryPages s) ?c0 =
      Inr (?c0\<lparr>memoryData := ?m,
             trace := trace ?c0 @
               map (\<lambda>(page, data). MemorySet (MACHINE_MEMORY E + page * 0x4000) data)
                 (memoryPages s)\<rparr>)"
    by (simp add: call_def)
  have len: "length ?m = length (memoryData c)"
    by (rule storePages_length [OF assms])
  have slot: "distinct (map fst (memoryPages s)) \<and>
            (\<forall>(page, data) \<in> set (memoryPages s). length data \<le> 0x4000) \<longrightarrow>
            (\<forall>(page, data) \<in> set (memoryPages s). \<forall>j < length data.
               ?m ! (MACHINE_MEMORY E + page * 0x4000 + j) = data ! j)"
  proof (intro impI ballI, clarify)
    fix p d j
    assume "distinct (map fst (memoryPages s))"
      and "\<forall>(page, data) \<in> set (memoryPages s). length data \<le> 0x4000"
      and "(p, d) \<in> set (memoryPages s)" and "j < length d"
    then show "?m ! (MACHINE_MEMORY E + p * 0x4000 + j) = d ! j"
      by (intro storePages_slot [OF assms])
  qed
  show ?thesis
    unfolding loadSnapshot_def pages
    using len slot by (simp add: Let_def setRegisterPairs_all call_def)
qed


theorem snapshot_order_witness:
  "MACHINE_MEMORY (exampleEngine 0 4 0) + 1 * 0x4000 + length [0xAA, 0xBB :: byte]
     \<le> length (memoryData (exampleCore 32768))
   \<and> (case loadSnapshot (exampleEngine 0 4 0)
           ((exampleSnapshot 48 1)\<lparr>memoryPages := [(0, [0x11, 0x22]), (1, [0xAA, 0xBB])]\<rparr>)
           (exampleCore 32768) of
      Inl e \<Rightarrow> False
    | Inr c' \<Rightarrow>
        trace c' =
          [SetMachineType 48, MemorySet 4 [0x11, 0x22], MemorySet 16388 [0xAA, 0xBB],
           RegisterPairSet 0 0x0101, RegisterPairSet 1 0x0202, RegisterPairSet 2 0x0303,
           RegisterPairSet 3 0x0404, RegisterPairSet 4 0x0505, RegisterPairSet 5 0x0606,
           RegisterPairSet 6 0x0707, RegisterPairSet 7 0x0808, RegisterPairSet 8 0x0909,
           RegisterPairSet 9 0x0A0A, RegisterPairSet 10 0x0B0B, RegisterPairSet 11 0x0C0C,
           SetPC 0x8000, SetIFF1 1, SetIFF2 0, SetIM 2, SetHalted True,
           WritePort 0xFE 7, SetTStates 100]
        \<and> length (memoryData c') = 32768
        \<and> memoryData c' ! 4 = 0x11 \<and> memoryData c' ! 5 = 0x22
        \<and> memoryData c' ! 16388 = 0xAA \<and> memoryData c' ! 16389 = 0xBB
        \<and> memoryData c' ! 3 = 0 \<and> memoryData c' ! 6 = 0
        \<and> memoryData c' ! 16387 = 0 \<and> memoryData c' ! 16390 = 0
        \<and> registerPairs c' =
            [0x0101, 0x0202, 0x0303, 0x0404, 0x0505, 0x0606, 0x0707, 0x0808,
             0x0909, 0x0A0A, 0x0B0B, 0x0C0C])
   \<and> (case loadSnapshot (exampleEngine 0 4 0) (exampleSnapshot 128 1) (exampleCore 32768) of
      Inl e \<Rightarrow> False
    | Inr c' \<Rightarrow>
        trace c' =
          [SetMachineType 128, MemorySet 16388 [0xAA, 0xBB],
           RegisterPairSet 0 0x0101, RegisterPairSet 1 0x0202, RegisterPairSet 2 0x0303,
           RegisterPairSet 3 0x0404, RegisterPairSet 4 0x0505, RegisterPairSet 5 0x0606,
           RegisterPairSet 6 0x0707, RegisterPairSet 7 0x0808, RegisterPairSet 8 0x0909,
           RegisterPairSet 9 0x0A0A, RegisterPairSet 10 0x0B0B, RegisterPairSet 11 0x0C0C,
           SetPC 0x8000, SetIFF1 1, SetIFF2 0, SetIM 2, SetHalted True,
           WritePort 0xFE 7, WritePort 0x7FFD 16, SetTStates 100]
        \<and> memoryData c' ! 4 = 0
        \<and> memoryData c' ! 16388 = 0xAA \<and> memoryData c' ! 16389 = 0xBB)"
  using snapshot_order [of "(exampleSnapshot 48 1)\<lparr>memoryPages := [(0, [0x11, 0x22]), (1, [0xAA, 0xBB])]\<rparr>"
      "exampleEngine 0 4 0" "exampleCore 32768"]
  by (simp add: loadSnapshot_def loadMemoryPage_def typedArraySet_def exampleSnapshot_def
      exampleEngine_def exampleCore_def registerNames_def setRegisterPair_def call_def Let_def
      nth_append eval_nat_numeral(1))

text \<open>
  A page at index 1 has no slot in the image of eight bytes: the loader has set the
  machine type and stops at the copy.
\<close>

lemma snapshot_page_out_of_range:
  "loadSnapshot (exampleEngine 0 4 0) (exampleSnapshot 48 1)
     (core (exampleWorker [0, 0, 0, 0, 0, 0, 0, 0, 0, 0, 0, 0] None)) =
   Inl (RangeError,
        \<lparr>memoryData = [0, 1, 2, 3, 4, 5, 6, 7],
         registerPairs = [0, 0, 0, 0, 0, 0, 0, 0, 0, 0, 0, 0],
         trace = [SetMachineType 48]\<rparr>)"
  by (simp add: loadSnapshot_def loadMemoryPage_def typedArraySet_def exampleSnapshot_def
      exampleEngine_def exampleWorker_def call_def)

section \<open>The dispatch loop and the stopped flag\<close>

text \<open>
  One step of the loop for each kind of status; a worker that is stopped answers a frame
  request with nothing and stays as it is; no message clears the flag.
\<close>

lemma frameLoop_completed: "frameLoop E 0 w = Some (Inr w)"
  by (subst frameLoop.simps) simp

lemma frameLoop_fatal:
  assumes "status \<noteq> 0" and "status \<noteq> 2"
  shows "frameLoop E status w =
           Some (Inl (if status = 1 then UnrecognisedOpcode else UnexpectedResult status,
                      w\<lparr>stopped := True\<rparr>))"
  using assms by (subst frameLoop.simps) simp

lemma frameLoop_trap:
  "frameLoop E 2 w =
     frameLoop E (fst (resumeFrame E (call ResumeFrame (core (trapTapeLoad E w)))))
       ((trapTapeLoad E w)\<lparr>core := snd (resumeFrame E (call ResumeFrame (core (trapTapeLoad E w))))\<rparr>)"
  by (subst frameLoop.simps) simp

lemma handleRunFrame_stopped:
  assumes "stopped w"
  shows "onmessage E (Msg_runFrame r) w = Some (w, Inr [])"
  using assms by (simp add: onmessage_def handleRunFrame_def)

lemma handleRunFrame_throw:
  assumes "\<not> stopped w"
    and "frameLoop E
           (fst (runFrame E (call RunFrame (call (SetAudioSamplesPerFrame
              (case audioBuffers r of None \<Rightarrow> 0 | Some (l, rt) \<Rightarrow> length l div 4)) (core w)))))
           (w\<lparr>core := snd (runFrame E (call RunFrame (call (SetAudioSamplesPerFrame
              (case audioBuffers r of None \<Rightarrow> 0 | Some (l, rt) \<Rightarrow> length l div 4)) (core w))))\<rparr>)
         = Some (Inl (e, w'))"
  shows "onmessage E (Msg_runFrame r) w = Some (w', Inl e)"
  using assms by (simp add: onmessage_def handleRunFrame_def Let_def)

lemma onmessage_stopped:
  assumes "stopped w"
  shows "\<exists>w' out. onmessage E m w = Some (w', out) \<and> stopped w'
           \<and> (\<forall>rs. out = Inr rs \<longrightarrow> rs = [])"
proof (cases m)
  case (Msg_runFrame r)
  then show ?thesis using assms by (simp add: handleRunFrame_stopped)
next
  case (Msg_loadMemory page data)
  then show ?thesis using assms by (simp add: onmessage_def split: sum.splits)
next
  case (Msg_loadSnapshot s)
  then show ?thesis using assms by (simp add: onmessage_def split: sum.splits prod.splits)
next
  case (Msg_openTRDFile data)
  then show ?thesis using assms by (simp add: onmessage_def split: sum.splits)
qed (use assms in \<open>simp_all add: onmessage_def\<close>)

lemma process_stopped:
  assumes "stopped w"
  shows "\<exists>w' outs. process E ms w = Some (w', outs) \<and> stopped w' \<and> length outs = length ms
           \<and> (\<forall>out \<in> set outs. \<forall>rs. out = Inr rs \<longrightarrow> rs = [])
           \<and> (\<forall>i < length ms. \<forall>r. ms ! i = Msg_runFrame r \<longrightarrow> outs ! i = Inr [])"
  using assms
proof (induction ms arbitrary: w)
  case Nil
  then show ?case by simp
next
  case (Cons m ms)
  from onmessage_stopped [OF Cons.prems, of E m] obtain w1 out where
    one: "onmessage E m w = Some (w1, out)" and s1: "stopped w1"
    and o1: "\<forall>rs. out = Inr rs \<longrightarrow> rs = []" by blast
  from Cons.IH [OF s1] obtain w2 outs where
    rest: "process E ms w1 = Some (w2, outs)" and s2: "stopped w2"
    and len: "length outs = length ms"
    and o2: "\<forall>out \<in> set outs. \<forall>rs. out = Inr rs \<longrightarrow> rs = []"
    and rf: "\<forall>i < length ms. \<forall>r. ms ! i = Msg_runFrame r \<longrightarrow> outs ! i = Inr []" by blast
  have head: "\<forall>r. m = Msg_runFrame r \<longrightarrow> out = Inr []"
    using one handleRunFrame_stopped [OF Cons.prems, of E] by auto
  have "\<forall>i < length (m # ms). \<forall>r. (m # ms) ! i = Msg_runFrame r \<longrightarrow> (out # outs) ! i = Inr []"
  proof (intro allI impI)
    fix i r assume "i < length (m # ms)" and "(m # ms) ! i = Msg_runFrame r"
    then show "(out # outs) ! i = Inr []"
      using head rf by (cases i) auto
  qed
  then show ?case
    using s2 len o1 o2 by (simp add: one rest)
qed

text \<open>
  The message \<^verbatim>\<open>runFrame\<close> on a worker that is not stopped is the loop run from
  \<open>startFrame\<close>; a run of tape traps takes the loop to the status and the worker that
  \<open>afterTraps\<close> computes.
\<close>

lemma handleRunFrame_from_start:
  assumes "\<not> stopped w"
  shows "onmessage E (Msg_runFrame r) w =
           (case frameLoop E (fst (startFrame E r w)) (snd (startFrame E r w)) of
              None \<Rightarrow> None
            | Some (Inl (e, w')) \<Rightarrow> Some (w', Inl e)
            | Some (Inr w') \<Rightarrow>
                (case completeFrame E r (core w') of
                   Inl e \<Rightarrow> Some (w', Inl e)
                 | Inr resp \<Rightarrow> Some (w', Inr [resp])))"
  using assms by (simp add: onmessage_def handleRunFrame_def startFrame_def Let_def)

lemma frameLoop_trapIteration:
  "frameLoop E 2 w = frameLoop E (fst (trapIteration E w)) (snd (trapIteration E w))"
  by (subst frameLoop.simps) (simp add: trapIteration_def)

lemma frameLoop_afterTraps:
  assumes "\<forall>k < n. fst (afterTraps E k (st, w)) = 2"
  shows "frameLoop E st w =
           frameLoop E (fst (afterTraps E n (st, w))) (snd (afterTraps E n (st, w)))"
  using assms
proof (induction n arbitrary: st w)
  case 0
  then show ?case by simp
next
  case (Suc n)
  have st: "st = 2" using Suc.prems [rule_format, of 0] by simp
  obtain st' w' where it: "trapIteration E w = (st', w')" by (cases "trapIteration E w")
  have "\<forall>k < n. fst (afterTraps E k (st', w')) = 2"
  proof (intro allI impI)
    fix k assume "k < n"
    then have "Suc k < Suc n" by simp
    then have "fst (afterTraps E (Suc k) (st, w)) = 2" using Suc.prems by blast
    then show "fst (afterTraps E k (st', w')) = 2" by (simp add: it)
  qed
  from Suc.IH [OF this] show ?case
    by (simp add: st frameLoop_trapIteration it)
qed

text \<open>
  Claim C6. A worker that is not stopped handles a \<^verbatim>\<open>runFrame\<close> message; the engine
  reports the tape trap \<open>n\<close> times (\<open>n\<close> may be 0) and then a status other than 0 and 2
  (1 is the unrecognised opcode). Then the handler ends by a \<^verbatim>\<open>throw\<close>, posts no
  response and leaves the worker with \<^verbatim>\<open>stopped\<close> true. Every sequence of messages
  after that one is handled to its end with \<^verbatim>\<open>stopped\<close> still true, \<^verbatim>\<open>reset\<close>
  included; none of them posts a response, so no \<^verbatim>\<open>frameCompleted\<close> is posted again,
  and each \<^verbatim>\<open>runFrame\<close> message among them ends at once with no response and no
  exception. The examples: the status 1 on the first frame, followed by two frame
  requests and a \<^verbatim>\<open>reset\<close>; and a tape trap followed by the status 7.
\<close>

theorem fatal_status_stops_for_good:
  assumes "\<not> stopped w"
    and "\<forall>k < n. fst (afterTraps E k (startFrame E r w)) = 2"
    and "fst (afterTraps E n (startFrame E r w)) \<noteq> 0"
    and "fst (afterTraps E n (startFrame E r w)) \<noteq> 2"
  shows "\<exists>e w1. onmessage E (Msg_runFrame r) w = Some (w1, Inl e)
       \<and> e = (if fst (afterTraps E n (startFrame E r w)) = 1 then UnrecognisedOpcode
              else UnexpectedResult (fst (afterTraps E n (startFrame E r w))))
       \<and> w1 = (snd (afterTraps E n (startFrame E r w)))\<lparr>stopped := True\<rparr>
       \<and> stopped w1
       \<and> (\<forall>ms. \<exists>w' outs. process E (Msg_runFrame r # ms) w = Some (w', Inl e # outs)
              \<and> stopped w' \<and> length outs = length ms
              \<and> (\<forall>out \<in> set outs. \<forall>rs. out = Inr rs \<longrightarrow> rs = [])
              \<and> (\<forall>i < length ms. \<forall>r'. ms ! i = Msg_runFrame r' \<longrightarrow> outs ! i = Inr []))"
proof -
  let ?st = "fst (afterTraps E n (startFrame E r w))"
  let ?wn = "snd (afterTraps E n (startFrame E r w))"
  let ?e = "if ?st = 1 then UnrecognisedOpcode else UnexpectedResult ?st"
  let ?w1 = "?wn\<lparr>stopped := True\<rparr>"
  obtain s0 w0 where start: "startFrame E r w = (s0, w0)" by (cases "startFrame E r w")
  have "frameLoop E s0 w0 = frameLoop E ?st ?wn"
    using frameLoop_afterTraps [of n E s0 w0] assms(2) by (simp add: start)
  also have "\<dots> = Some (Inl (?e, ?w1))"
    by (rule frameLoop_fatal [OF assms(3) assms(4)])
  finally have loop: "frameLoop E (fst (startFrame E r w)) (snd (startFrame E r w)) =
      Some (Inl (?e, ?w1))" by (simp add: start)
  have one: "onmessage E (Msg_runFrame r) w = Some (?w1, Inl ?e)"
    by (simp add: handleRunFrame_from_start [OF assms(1)] loop)
  have s1: "stopped ?w1" by simp
  have rest: "\<forall>ms. \<exists>w' outs. process E (Msg_runFrame r # ms) w = Some (w', Inl ?e # outs)
              \<and> stopped w' \<and> length outs = length ms
              \<and> (\<forall>out \<in> set outs. \<forall>rs. out = Inr rs \<longrightarrow> rs = [])
              \<and> (\<forall>i < length ms. \<forall>r'. ms ! i = Msg_runFrame r' \<longrightarrow> outs ! i = Inr [])"
  proof
    fix ms
    from process_stopped [OF s1, of E ms] obtain w' outs where
      p: "process E ms ?w1 = Some (w', outs)" and "stopped w'" and "length outs = length ms"
      and "\<forall>out \<in> set outs. \<forall>rs. out = Inr rs \<longrightarrow> rs = []"
      and "\<forall>i < length ms. \<forall>r'. ms ! i = Msg_runFrame r' \<longrightarrow> outs ! i = Inr []"
      by blast
    then show "\<exists>w' outs. process E (Msg_runFrame r # ms) w = Some (w', Inl ?e # outs)
              \<and> stopped w' \<and> length outs = length ms
              \<and> (\<forall>out \<in> set outs. \<forall>rs. out = Inr rs \<longrightarrow> rs = [])
              \<and> (\<forall>i < length ms. \<forall>r'. ms ! i = Msg_runFrame r' \<longrightarrow> outs ! i = Inr [])"
      by (intro exI [of _ w'] exI [of _ outs]) (simp add: one)
  qed
  show ?thesis
    by (intro exI [of _ ?e] exI [of _ ?w1] conjI one refl s1 rest)
qed


theorem fatal_status_stops_for_good_witness:
  "\<not> stopped (exampleWorker [0, 0, 0, 0, 0, 0, 0, 0, 0, 0, 0, 0] None)
   \<and> fst (afterTraps (exampleEngine 0 4 1) 0
        (startFrame (exampleEngine 0 4 1) \<lparr>frameBuffer = [9, 9, 9, 9], audioBuffers = None\<rparr>
           (exampleWorker [0, 0, 0, 0, 0, 0, 0, 0, 0, 0, 0, 0] None))) = 1
   \<and> process (exampleEngine 0 4 1)
        [Msg_runFrame \<lparr>frameBuffer = [9, 9, 9, 9], audioBuffers = None\<rparr>,
         Msg_runFrame \<lparr>frameBuffer = [9, 9, 9, 9], audioBuffers = None\<rparr>,
         Msg_reset,
         Msg_runFrame \<lparr>frameBuffer = [9, 9, 9, 9], audioBuffers = None\<rparr>]
        (exampleWorker [0, 0, 0, 0, 0, 0, 0, 0, 0, 0, 0, 0] None)
     = Some (\<lparr>core = \<lparr>memoryData = [0, 1, 2, 3, 4, 5, 6, 7],
                        registerPairs = [0, 0, 0, 0, 0, 0, 0, 0, 0, 0, 0, 0],
                        trace = [SetAudioSamplesPerFrame 0, RunFrame, Reset]\<rparr>,
               stopped = True, tape = None, trdosDisk = [0, 0, 0, 0]\<rparr>,
             [Inl UnrecognisedOpcode, Inr [], Inr [], Inr []])
   \<and> fst (afterTraps (trapThenStatus 7) 0
        (startFrame (trapThenStatus 7) \<lparr>frameBuffer = [9, 9, 9, 9], audioBuffers = None\<rparr>
           (exampleWorker [0, 0, 2, 0, 1, 0, 0, 0, 0x8000, 0, 0, 0]
              (Some [[0x00, 0x11, 0x22, 0x33]])))) = 2
   \<and> fst (afterTraps (trapThenStatus 7) 1
        (startFrame (trapThenStatus 7) \<lparr>frameBuffer = [9, 9, 9, 9], audioBuffers = None\<rparr>
           (exampleWorker [0, 0, 2, 0, 1, 0, 0, 0, 0x8000, 0, 0, 0]
              (Some [[0x00, 0x11, 0x22, 0x33]])))) = 7
   \<and> process (trapThenStatus 7)
        [Msg_runFrame \<lparr>frameBuffer = [9, 9, 9, 9], audioBuffers = None\<rparr>,
         Msg_runFrame \<lparr>frameBuffer = [9, 9, 9, 9], audioBuffers = None\<rparr>]
        (exampleWorker [0, 0, 2, 0, 1, 0, 0, 0, 0x8000, 0, 0, 0] (Some [[0x00, 0x11, 0x22, 0x33]]))
     = Some (\<lparr>core = \<lparr>memoryData = [0, 1, 2, 3, 4, 5, 6, 7],
                        registerPairs = [1, 0, 2, 0, 1, 0, 0, 0, 0x8000, 0, 0, 0],
                        trace = [SetAudioSamplesPerFrame 0, RunFrame,
                                 Poke 0x8000 0x11, Poke 0x8001 0x22,
                                 RegisterPairSet 0 1, SetPC 0x05E2, ResumeFrame]\<rparr>,
               stopped = True, tape = Some [], trdosDisk = [0, 0, 0, 0]\<rparr>,
             [Inl (UnexpectedResult 7), Inr []])"
  using fatal_status_stops_for_good
    [of "exampleWorker [0, 0, 0, 0, 0, 0, 0, 0, 0, 0, 0, 0] None" 0 "exampleEngine 0 4 1"
        "\<lparr>frameBuffer = [9, 9, 9, 9], audioBuffers = None\<rparr>"]
    fatal_status_stops_for_good
    [of "exampleWorker [0, 0, 2, 0, 1, 0, 0, 0, 0x8000, 0, 0, 0] (Some [[0x00, 0x11, 0x22, 0x33]])"
        1 "trapThenStatus 7" "\<lparr>frameBuffer = [9, 9, 9, 9], audioBuffers = None\<rparr>"]
  by (simp add: frameLoop_fatal frameLoop_trap onmessage_def handleRunFrame_def startFrame_def
      trapIteration_def trapThenStatus_def exampleEngine_def exampleWorker_def call_def
      trapTapeLoad_def loadBlock_load listTape_def setRegisterPair_def upt_conv_Cons)

text \<open>
  The engine reports 1 on the first frame: the request raises, and the two frame
  requests after it, one of them after a \<^verbatim>\<open>reset\<close>, post nothing. The same with a status
  outside the known ones. With a tape trap (status 2, then 0) the loop runs the tape
  loader, resumes and completes the frame.
\<close>

lemma unrecognised_opcode_on_first_frame:
  "process (exampleEngine 0 4 1)
     [Msg_runFrame \<lparr>frameBuffer = [9, 9, 9, 9], audioBuffers = None\<rparr>,
      Msg_runFrame \<lparr>frameBuffer = [9, 9, 9, 9], audioBuffers = None\<rparr>,
      Msg_reset,
      Msg_runFrame \<lparr>frameBuffer = [9, 9, 9, 9], audioBuffers = None\<rparr>]
     (exampleWorker [0, 0, 0, 0, 0, 0, 0, 0, 0, 0, 0, 0] None)
   = Some (\<lparr>core = \<lparr>memoryData = [0, 1, 2, 3, 4, 5, 6, 7],
                      registerPairs = [0, 0, 0, 0, 0, 0, 0, 0, 0, 0, 0, 0],
                      trace = [SetAudioSamplesPerFrame 0, RunFrame, Reset]\<rparr>,
             stopped = True, tape = None, trdosDisk = [0, 0, 0, 0]\<rparr>,
           [Inl UnrecognisedOpcode, Inr [], Inr [], Inr []])"
  by (simp add: frameLoop_fatal onmessage_def handleRunFrame_def exampleEngine_def
      exampleWorker_def call_def)

lemma unexpected_status_on_first_frame:
  "process (exampleEngine 0 4 7)
     [Msg_runFrame \<lparr>frameBuffer = [9, 9, 9, 9], audioBuffers = None\<rparr>,
      Msg_runFrame \<lparr>frameBuffer = [9, 9, 9, 9], audioBuffers = None\<rparr>]
     (exampleWorker [0, 0, 0, 0, 0, 0, 0, 0, 0, 0, 0, 0] None)
   = Some (\<lparr>core = \<lparr>memoryData = [0, 1, 2, 3, 4, 5, 6, 7],
                      registerPairs = [0, 0, 0, 0, 0, 0, 0, 0, 0, 0, 0, 0],
                      trace = [SetAudioSamplesPerFrame 0, RunFrame]\<rparr>,
             stopped = True, tape = None, trdosDisk = [0, 0, 0, 0]\<rparr>,
           [Inl (UnexpectedResult 7), Inr []])"
  by (simp add: frameLoop_fatal onmessage_def handleRunFrame_def exampleEngine_def
      exampleWorker_def call_def)

lemma frame_with_tape_trap:
  "process (exampleEngine 0 4 2)
     [Msg_runFrame \<lparr>frameBuffer = [9, 9, 9, 9], audioBuffers = None\<rparr>]
     (exampleWorker [0, 0, 2, 0, 1, 0, 0, 0, 0x8000, 0, 0, 0] (Some [[0x00, 0x11, 0x22, 0x33]]))
   = Some (\<lparr>core = \<lparr>memoryData = [0, 1, 2, 3, 4, 5, 6, 7],
                      registerPairs = [1, 0, 2, 0, 1, 0, 0, 0, 0x8000, 0, 0, 0],
                      trace = [SetAudioSamplesPerFrame 0, RunFrame,
                               Poke 0x8000 0x11, Poke 0x8001 0x22,
                               RegisterPairSet 0 1, SetPC 0x05E2, ResumeFrame]\<rparr>,
             stopped = False, tape = Some [], trdosDisk = [0, 0, 0, 0]\<rparr>,
           [Inr [FrameCompleted [0, 1, 2, 3] None]])"
  by (simp add: frameLoop_trap frameLoop_completed onmessage_def handleRunFrame_def
      completeFrame_def workerFrameData_def subarray_def typedArraySet_def
      trapTapeLoad_def loadBlock_load listTape_def setRegisterPair_def
      exampleEngine_def exampleWorker_def call_def upt_conv_Cons)

section \<open>The copy of the frame\<close>

text \<open>
  The view \<^verbatim>\<open>workerFrameData\<close> runs from \<^verbatim>\<open>core.FRAME_BUFFER\<close> to the index
  \<^verbatim>\<open>FRAME_BUFFER_SIZE\<close>. It is the region of \<^verbatim>\<open>FRAME_BUFFER_SIZE\<close> bytes at
  \<^verbatim>\<open>core.FRAME_BUFFER\<close> when that offset is 0, and it is shorter by the offset when the
  offset is not 0. With the offset 0 and buffers of the lengths of the regions, the
  frame and the audio regions are copied.
\<close>

lemma workerFrameData_length:
  "length (workerFrameData E c) =
     min (FRAME_BUFFER_SIZE E) (length (memoryData c)) - min (FRAME_BUFFER E) (length (memoryData c))"
  by (simp add: workerFrameData_def subarray_def)

lemma workerFrameData_offset_zero:
  assumes "FRAME_BUFFER E = 0"
  shows "workerFrameData E c = take (FRAME_BUFFER_SIZE E) (drop (FRAME_BUFFER E) (memoryData c))"
  using assms by (simp add: workerFrameData_def subarray_def min_def)

lemma workerFrameData_short:
  assumes "0 < FRAME_BUFFER E" and "0 < FRAME_BUFFER_SIZE E"
    and "FRAME_BUFFER E + FRAME_BUFFER_SIZE E \<le> length (memoryData c)"
  shows "length (workerFrameData E c) = FRAME_BUFFER_SIZE E - FRAME_BUFFER E"
    and "length (take (FRAME_BUFFER_SIZE E) (drop (FRAME_BUFFER E) (memoryData c))) =
           FRAME_BUFFER_SIZE E"
    and "workerFrameData E c \<noteq> take (FRAME_BUFFER_SIZE E) (drop (FRAME_BUFFER E) (memoryData c))"
proof -
  show l1: "length (workerFrameData E c) = FRAME_BUFFER_SIZE E - FRAME_BUFFER E"
    using assms by (simp add: workerFrameData_length min_def)
  show l2: "length (take (FRAME_BUFFER_SIZE E) (drop (FRAME_BUFFER E) (memoryData c))) =
           FRAME_BUFFER_SIZE E"
    using assms by simp
  show "workerFrameData E c \<noteq> take (FRAME_BUFFER_SIZE E) (drop (FRAME_BUFFER E) (memoryData c))"
  proof
    assume "workerFrameData E c = take (FRAME_BUFFER_SIZE E) (drop (FRAME_BUFFER E) (memoryData c))"
    then have "length (workerFrameData E c) =
        length (take (FRAME_BUFFER_SIZE E) (drop (FRAME_BUFFER E) (memoryData c)))" by simp
    then show False using assms(1,2) unfolding l1 l2 by simp
  qed
qed

lemma completeFrame_video:
  assumes "FRAME_BUFFER E = 0" and "FRAME_BUFFER_SIZE E \<le> length (memoryData c)"
    and "FRAME_BUFFER_SIZE E \<le> length (frameBuffer r)" and "audioBuffers r = None"
  shows "completeFrame E r c =
           Inr (FrameCompleted
                  (take (FRAME_BUFFER_SIZE E) (drop (FRAME_BUFFER E) (memoryData c)) @
                   drop (FRAME_BUFFER_SIZE E) (frameBuffer r)) None)"
  using assms
  by (simp add: completeFrame_def workerFrameData_def subarray_def typedArraySet_def)

lemma completeFrame_audio:
  assumes "FRAME_BUFFER E = 0" and "FRAME_BUFFER_SIZE E \<le> length (memoryData c)"
    and "FRAME_BUFFER_SIZE E \<le> length (frameBuffer r)"
    and "audioBuffers r = Some (l, rt)" and "length l = 4 * n" and "length rt = 4 * n" and "0 < n"
    and "AUDIO_BUFFER_LEFT E mod 4 = 0" and "AUDIO_BUFFER_RIGHT E mod 4 = 0"
    and "AUDIO_BUFFER_LEFT E + 4 * n \<le> length (memoryData c)"
    and "AUDIO_BUFFER_RIGHT E + 4 * n \<le> length (memoryData c)"
  shows "completeFrame E r c =
           Inr (FrameCompleted
                  (take (FRAME_BUFFER_SIZE E) (drop (FRAME_BUFFER E) (memoryData c)) @
                   drop (FRAME_BUFFER_SIZE E) (frameBuffer r))
                  (Some (take (4 * n) (drop (AUDIO_BUFFER_LEFT E) (memoryData c)),
                         take (4 * n) (drop (AUDIO_BUFFER_RIGHT E) (memoryData c)))))"
proof -
  have "l \<noteq> []" using assms(5,7) by auto
  then show ?thesis
    using assms
    by (simp add: completeFrame_def workerFrameData_def subarray_def typedArraySet_def
        float32View_def)
qed

text \<open>
  Claim C3, on an engine whose frame buffer is at offset 2, with a frame buffer size of
  4: the region of the claim is the bytes 2, 3, 4, 5 of the memory image, and the frame
  request that completes gets the bytes 2, 3 only; the last two bytes of its video
  buffer are as the caller sent them.
\<close>

theorem frame_view_ends_at_frame_buffer_size:
  "onmessage (exampleEngine 2 4 0)
     (Msg_runFrame \<lparr>frameBuffer = [9, 9, 9, 9], audioBuffers = None\<rparr>)
     (exampleWorker [0, 0, 0, 0, 0, 0, 0, 0, 0, 0, 0, 0] None)
   = Some (\<lparr>core = \<lparr>memoryData = [0, 1, 2, 3, 4, 5, 6, 7],
                      registerPairs = [0, 0, 0, 0, 0, 0, 0, 0, 0, 0, 0, 0],
                      trace = [SetAudioSamplesPerFrame 0, RunFrame]\<rparr>,
             stopped = False, tape = None, trdosDisk = [0, 0, 0, 0]\<rparr>,
           Inr [FrameCompleted [2, 3, 9, 9] None])
   \<and> take (FRAME_BUFFER_SIZE (exampleEngine 2 4 0))
        (drop (FRAME_BUFFER (exampleEngine 2 4 0)) [0, 1, 2, 3, 4, 5, 6, 7 :: byte])
     = [2, 3, 4, 5]"
  by (simp add: frameLoop_completed onmessage_def handleRunFrame_def completeFrame_def
      workerFrameData_def subarray_def typedArraySet_def exampleEngine_def exampleWorker_def
      call_def)

text \<open>The same request, with audio buffers, on an engine whose frame buffer is at offset 0.\<close>

lemma frame_copied_when_offset_zero:
  "onmessage (exampleEngine 0 4 0)
     (Msg_runFrame \<lparr>frameBuffer = [9, 9, 9, 9], audioBuffers = Some ([8, 8, 8, 8], [7, 7, 7, 7])\<rparr>)
     (exampleWorker [0, 0, 0, 0, 0, 0, 0, 0, 0, 0, 0, 0] None)
   = Some (\<lparr>core = \<lparr>memoryData = [0, 1, 2, 3, 4, 5, 6, 7],
                      registerPairs = [0, 0, 0, 0, 0, 0, 0, 0, 0, 0, 0, 0],
                      trace = [SetAudioSamplesPerFrame 1, RunFrame]\<rparr>,
             stopped = False, tape = None, trdosDisk = [0, 0, 0, 0]\<rparr>,
           Inr [FrameCompleted [0, 1, 2, 3] (Some ([0, 1, 2, 3], [4, 5, 6, 7]))])"
  by (simp add: frameLoop_completed onmessage_def handleRunFrame_def completeFrame_def
      workerFrameData_def subarray_def typedArraySet_def float32View_def exampleEngine_def
      exampleWorker_def call_def)

section \<open>The loaded bytes in the engine's memory\<close>

text \<open>
  In load mode with a block of the expected type, whether the load succeeds or fails,
  the memory after the pokes of the handler holds the byte at offset i + 1 of the block
  at the address (IX + i) mod 65536, for each of the bytes copied: the addresses of one
  load are distinct, since the count is below 65536. The load of two bytes at 0xFFFF
  leaves 0x11 at 0xFFFF and 0x22 at 0x0000; the load at 0x8000 is the example of the
  specification.
\<close>

lemma pokedMemory_append: "pokedMemory (xs @ ys) m = pokedMemory ys (pokedMemory xs m)"
  by (induction xs m rule: pokedMemory.induct) (simp_all add: fun_upd_def)

lemma addr_distinct:
  assumes "i < j" and "j < 65536"
  shows "(a :: u16) + word_of_nat i \<noteq> a + word_of_nat j"
proof
  assume "a + word_of_nat i = a + word_of_nat j"
  then have "(word_of_nat i :: u16) = word_of_nat j" by simp
  then have "unat (word_of_nat i :: u16) = unat (word_of_nat j :: u16)" by simp
  then show False using assms by (simp add: unat_of_nat)
qed

lemma pokedMemory_run:
  assumes "n \<le> 65536" and "i < n"
  shows "pokedMemory (map (\<lambda>k. Poke (a + word_of_nat k) (f k)) [0..<n]) m (a + word_of_nat i) = f i"
  using assms
proof (induction n)
  case 0
  then show ?case by simp
next
  case (Suc n)
  show ?case
  proof (cases "i = n")
    case True
    then show ?thesis by (simp add: pokedMemory_append)
  next
    case False
    then have lt: "i < n" using Suc.prems by simp
    have "a + word_of_nat i \<noteq> a + word_of_nat n"
      using addr_distinct [OF lt] Suc.prems by simp
    then show ?thesis
      using Suc.IH lt Suc.prems by (simp add: pokedMemory_append)
  qed
qed


lemma loaded_bytes_in_memory:
  assumes "tape w = Some t" and "getNextLoadableBlock E t = (Some block, t')"
    and "registerPairs (core w) ! 4 AND 1 = 1"
    and "block \<noteq> []"
    and "unat (block ! 0) = unat (drop_bit 8 (registerPairs (core w) ! 4))"
    and "i < min (unat (registerPairs (core w) ! 2)) (length block - 1)"
  shows "pokedMemory (trace (core (trapTapeLoad E w))) m
           (word_of_nat ((unat (registerPairs (core w) ! 8) + i) mod 65536)) = block ! (i + 1)"
proof -
  let ?c = "core w"
  let ?k = "min (unat (registerPairs ?c ! 2)) (length block - 1)"
  let ?v = "if unat (registerPairs ?c ! 2) + 2 \<le> length block \<and>
               foldl (XOR) (block ! 0) (take (unat (registerPairs ?c ! 2)) (drop 1 block)) =
                 block ! (unat (registerPairs ?c ! 2) + 1)
            then registerPairs ?c ! 0 OR 1 else registerPairs ?c ! 0 AND 0xfffe"
  have load: "registerPairs ?c ! 4 AND 1 \<noteq> 0" using assms(3) by simp
  have tr: "trace (core (trapTapeLoad E w)) =
      trace ?c @ map (\<lambda>k. Poke (registerPairs ?c ! 8 + word_of_nat k) (block ! (k + 1))) [0..<?k] @
      [RegisterPairSet 0 ?v, SetPC 0x05e2]"
    by (simp add: trapTapeLoad_block [OF assms(1) assms(2)]
        loadBlock_load [OF assms(4) assms(5) [symmetric] load] call_def setRegisterPair_def)
  have "unat (registerPairs ?c ! 2) < 65536"
    using unsigned_less [of "registerPairs ?c ! 2"] by simp
  then have k: "?k \<le> 65536" by simp
  show ?thesis
    unfolding tr pokedMemory_append addr_wrap
    using pokedMemory_run [OF k assms(6), of "registerPairs ?c ! 8" "\<lambda>k. block ! (k + 1)"]
    by simp
qed

lemma wraparound_load_in_memory:
  "pokedMemory (trace (core (trapTapeLoad (exampleEngine 0 4 0)
      (exampleWorker [0, 0, 2, 0, 1, 0, 0, 0, 0xFFFF, 0, 0, 0] (Some [[0x00, 0x11, 0x22, 0x33]])))))
     (\<lambda>a. 0) 0xFFFF = 0x11
   \<and> pokedMemory (trace (core (trapTapeLoad (exampleEngine 0 4 0)
      (exampleWorker [0, 0, 2, 0, 1, 0, 0, 0, 0xFFFF, 0, 0, 0] (Some [[0x00, 0x11, 0x22, 0x33]])))))
     (\<lambda>a. 0) 0x0000 = 0x22"
  by (simp add: trapTapeLoad_def loadBlock_load exampleWorker_def exampleEngine_def listTape_def
      call_def setRegisterPair_def upt_conv_Cons)

lemma load_at_8000:
  "core (trapTapeLoad (exampleEngine 0 4 0)
      (exampleWorker [0, 0, 2, 0, 1, 0, 0, 0, 0x8000, 0, 0, 0] (Some [[0x00, 0x11, 0x22, 0x33]])))
     = \<lparr>memoryData = [0, 1, 2, 3, 4, 5, 6, 7],
        registerPairs = [1, 0, 2, 0, 1, 0, 0, 0, 0x8000, 0, 0, 0],
        trace = [Poke 0x8000 0x11, Poke 0x8001 0x22, RegisterPairSet 0 1, SetPC 0x05E2]\<rparr>"
  by (simp add: trapTapeLoad_def loadBlock_load exampleWorker_def exampleEngine_def listTape_def
      call_def setRegisterPair_def upt_conv_Cons)

end
